theory Spec2Isabelle
  imports Complex_Main
begin

section \<open>PanDismissibleView: a shallow embedding\<close>

text \<open>
  The component of \<^verbatim>\<open>src/components/panningViews/panDismissibleView.js\<close> is modelled
  by explicit state passing: every method takes the component instance (its props, its React
  state and its instance fields) and returns the updated instance.

  Numbers are idealised: a finite JavaScript number is a real number, so the rounding error
  of IEEE doubles, the infinities and the negative zero are outside the model. What the
  code can observe of a missing value is kept: a field that was never assigned is
  \<open>Undefined\<close>, and arithmetic on it yields \<open>NaN\<close>.
\<close>

subsection \<open>Values\<close>

datatype direction = UP | DOWN | LEFT | RIGHT

datatype jsval = Undefined | NaN | Num real

datatype error = TypeError

text \<open>\<^verbatim>\<open>_.isUndefined(v)\<close>\<close>

fun isUndefined :: "jsval \<Rightarrow> bool" where
  "isUndefined Undefined = True"
| "isUndefined NaN = False"
| "isUndefined (Num r) = False"

text \<open>The truth value of a number in a condition: \<^verbatim>\<open>undefined\<close>, \<^verbatim>\<open>NaN\<close> and \<^verbatim>\<open>0\<close> are falsy.\<close>

fun truthy :: "jsval \<Rightarrow> bool" where
  "truthy Undefined = False"
| "truthy NaN = False"
| "truthy (Num r) = (r \<noteq> 0)"

text \<open>\<^verbatim>\<open>Math.round\<close>: the nearest integer, a tie going up; \<^verbatim>\<open>Math.round(undefined)\<close> is \<^verbatim>\<open>NaN\<close>.\<close>

definition round_half_up :: "real \<Rightarrow> real" where
  "round_half_up r = of_int \<lfloor>r + 1 / 2\<rfloor>"

fun Math_round :: "jsval \<Rightarrow> jsval" where
  "Math_round Undefined = NaN"
| "Math_round NaN = NaN"
| "Math_round (Num r) = Num (round_half_up r)"

text \<open>Unary minus.\<close>

fun neg :: "jsval \<Rightarrow> jsval" where
  "neg Undefined = NaN"
| "neg NaN = NaN"
| "neg (Num r) = Num (- r)"

text \<open>Binary \<^verbatim>\<open>+\<close> on numeric operands.\<close>

fun plus_js :: "jsval \<Rightarrow> jsval \<Rightarrow> jsval" where
  "plus_js (Num a) (Num b) = Num (a + b)"
| "plus_js a b = NaN"

text \<open>\<^verbatim>\<open><=\<close> and \<^verbatim>\<open>>=\<close>: false as soon as one side is not a number.\<close>

fun le_js :: "jsval \<Rightarrow> jsval \<Rightarrow> bool" where
  "le_js (Num a) (Num b) = (a \<le> b)"
| "le_js a b = False"

fun ge_js :: "jsval \<Rightarrow> jsval \<Rightarrow> bool" where
  "ge_js (Num a) (Num b) = (a \<ge> b)"
| "ge_js a b = False"

text \<open>\<^verbatim>\<open>!==\<close> on numbers: \<^verbatim>\<open>NaN\<close> differs from everything, itself included.\<close>

fun strict_neq :: "jsval \<Rightarrow> jsval \<Rightarrow> bool" where
  "strict_neq NaN b = True"
| "strict_neq a b = (a \<noteq> b)"

subsection \<open>Props, context and instance\<close>

text \<open>
  An object \<^verbatim>\<open>{x?: Direction, y?: Direction}\<close>: the provider's \<^verbatim>\<open>swipeDirections\<close> and
  \<^verbatim>\<open>dragDirections\<close>, and the instance field \<^verbatim>\<open>this.swipe\<close>. A missing key is \<open>None\<close>.
  The members of \<^verbatim>\<open>PanningProvider.Directions\<close> are declared outside this file; they are
  taken to be truthy values (non-empty strings), so a key is truthy exactly when it is present.
\<close>

record axes =
  axis_x :: "direction option"
  axis_y :: "direction option"

fun present :: "direction option \<Rightarrow> bool" where
  "present None = False"
| "present (Some d) = True"

text \<open>\<^verbatim>\<open>dragDeltas: {x?: number, y?: number}\<close>\<close>

record deltas =
  delta_x :: jsval
  delta_y :: jsval

record pan_context =
  isPanning :: bool
  dragDeltas :: deltas
  swipeDirections :: axes
  dragDirections :: axes

record animation_options =
  animationSpeed :: real
  animationBounciness :: real

text \<open>
  \<open>onDismiss\<close> says whether the callback prop was given; \<open>style_left\<close> and \<open>style_top\<close>
  are the \<^verbatim>\<open>left\<close> and \<^verbatim>\<open>top\<close> keys of the \<^verbatim>\<open>style\<close> prop.
\<close>

record props =
  directions :: "direction list"
  onDismiss :: bool
  animationOptions :: animation_options
  dismissAnimationDuration :: "real option"
  style_left :: "real option"
  style_top :: "real option"
  ctx :: pan_context

datatype channel = TranslateX | TranslateY

text \<open>\<^verbatim>\<open>Animated.spring(channel, {toValue, speed, bounciness})\<close> and
  \<^verbatim>\<open>Animated.timing(channel, {toValue, duration})\<close>.\<close>

datatype animation =
  Spring channel jsval real real
| Timing channel jsval real

fun channel_of :: "animation \<Rightarrow> channel" where
  "channel_of (Spring c v speed bounciness) = c"
| "channel_of (Timing c v duration) = c"

text \<open>The callback handed to \<^verbatim>\<open>Animated.parallel(animations).start\<close>.\<close>

datatype completion = InitAnimationFinished | DismissAnimationFinished

text \<open>
  A call \<^verbatim>\<open>Animated.parallel(animations).start(callback)\<close>: the generation of the pair of
  \<^verbatim>\<open>Animated.Value\<close> objects that the animations drive (the objects that were in
  \<^verbatim>\<open>this.state\<close> when the handler built the animations), the animations and the callback.
\<close>

type_synonym started = "nat \<times> animation list \<times> completion"

text \<open>Instrumentation: the handlers entered and the invocations of the \<^verbatim>\<open>onDismiss\<close> prop.\<close>

datatype call = PanStartCall | PanEndCall | DragCall | SwipeCall | DismissCallback

text \<open>
  The instance. \<open>animTranslateX\<close>, \<open>animTranslateY\<close> and \<open>isAnimating\<close> are \<^verbatim>\<open>this.state\<close>.
  The two channels are \<^verbatim>\<open>Animated.Value\<close> objects: \<open>generation\<close> numbers the pair that is
  in the state (\<^verbatim>\<open>initPositions\<close> replaces both by new objects), and \<open>animTranslateX\<close>,
  \<open>animTranslateY\<close> are the values they were seeded with or last driven to.
  \<open>ref_current\<close> says whether \<^verbatim>\<open>this.ref.current\<close> is attached; \<open>top_y\<close> is \<^verbatim>\<open>this.top\<close>;
  \<open>swipe\<close> is \<open>None\<close> while \<^verbatim>\<open>this.swipe\<close> is unassigned.

  A state update is applied at once, but the callback of
  \<^verbatim>\<open>setState({isAnimating: true}, callback)\<close> runs only after the update that called it has
  been committed: \<open>pending\<close> holds the animations that such callbacks are about to start,
  \<open>inflight\<close> the animations started and not yet ended, oldest first. \<open>calls\<close> is the
  instrumentation, newest entry last.
\<close>

record component =
  props :: props
  animTranslateX :: jsval
  animTranslateY :: jsval
  isAnimating :: bool
  ref_current :: bool
  height :: jsval
  thresholdY :: jsval
  width :: jsval
  thresholdX :: jsval
  originalLeft :: jsval
  originalTop :: jsval
  left :: jsval
  top_y :: jsval
  swipe :: "axes option"
  generation :: nat
  pending :: "started list"
  inflight :: "started list"
  calls :: "call list"

text \<open>\<^verbatim>\<open>Constants.screenWidth\<close> and \<^verbatim>\<open>Constants.screenHeight\<close>, defined outside this file.\<close>

record constants =
  screenWidth :: real
  screenHeight :: real

definition DEFAULT_SPEED :: real where
  "DEFAULT_SPEED = 20"

definition DEFAULT_BOUNCINESS :: real where
  "DEFAULT_BOUNCINESS = 6"

definition DEFAULT_DISMISS_ANIMATION_DURATION :: real where
  "DEFAULT_DISMISS_ANIMATION_DURATION = 280"

definition defaultProps :: "pan_context \<Rightarrow> props" where
  "defaultProps c =
     \<lparr>directions = [UP, DOWN, LEFT, RIGHT],
      onDismiss = False,
      animationOptions =
        \<lparr>animationSpeed = DEFAULT_SPEED, animationBounciness = DEFAULT_BOUNCINESS\<rparr>,
      dismissAnimationDuration = None,
      style_left = None,
      style_top = None,
      ctx = c\<rparr>"

definition constructor :: "props \<Rightarrow> component" where
  "constructor p =
     \<lparr>props = p,
      animTranslateX = Num 0,
      animTranslateY = Num 0,
      isAnimating = False,
      ref_current = False,
      height = Undefined,
      thresholdY = Undefined,
      width = Undefined,
      thresholdX = Undefined,
      originalLeft = Undefined,
      originalTop = Undefined,
      left = Undefined,
      top_y = Undefined,
      swipe = None,
      generation = 0,
      pending = [],
      inflight = [],
      calls = []\<rparr>"

subsection \<open>Methods\<close>

definition setNativeProps :: "jsval \<Rightarrow> jsval \<Rightarrow> component \<Rightarrow> component" where
  "setNativeProps l t this =
     (if ref_current this then this\<lparr>left := l, top_y := t\<rparr> else this)"

text \<open>The two \<^verbatim>\<open>new Animated.Value\<close> make a new generation of channels.\<close>

definition initPositions :: "component \<Rightarrow> component" where
  "initPositions this =
     (setNativeProps (originalLeft this) (originalTop this) this)
       \<lparr>animTranslateX := originalLeft this, animTranslateY := originalTop this,
        generation := Suc (generation this)\<rparr>"

text \<open>\<^verbatim>\<open>_.get(style, key, 0)\<close>\<close>

definition get_or_0 :: "real option \<Rightarrow> jsval" where
  "get_or_0 v = (case v of None \<Rightarrow> Num 0 | Some r \<Rightarrow> Num r)"

text \<open>The two arguments are \<^verbatim>\<open>layout.width\<close> and \<^verbatim>\<open>layout.height\<close> of the event.\<close>

definition onLayout :: "real \<Rightarrow> real \<Rightarrow> component \<Rightarrow> component" where
  "onLayout layout_width layout_height this =
     (if isUndefined (height this) then
        initPositions
          (this\<lparr>height := Num layout_height,
                thresholdY := Num (layout_height / 2),
                width := Num layout_width,
                thresholdX := Num (layout_width / 2),
                originalLeft := get_or_0 (style_left (props this)),
                originalTop := get_or_0 (style_top (props this))\<rparr>)
      else this)"

definition onPanStart :: "component \<Rightarrow> component" where
  "onPanStart this =
     this\<lparr>swipe := Some \<lparr>axis_x = None, axis_y = None\<rparr>, calls := calls this @ [PanStartCall]\<rparr>"

definition onDrag :: "deltas \<Rightarrow> component \<Rightarrow> component" where
  "onDrag d this =
     (let l = (if truthy (delta_x d) then Math_round (delta_x d) else originalLeft this);
          t = (if truthy (delta_y d) then Math_round (delta_y d) else originalTop this)
      in setNativeProps l t (this\<lparr>calls := calls this @ [DragCall]\<rparr>))"

definition onSwipe :: "axes \<Rightarrow> component \<Rightarrow> component" where
  "onSwipe sd this = this\<lparr>swipe := Some sd, calls := calls this @ [SwipeCall]\<rparr>"

text \<open>The pair returned is \<^verbatim>\<open>{isRight, isDown}\<close>; \<open>None\<close> is \<^verbatim>\<open>undefined\<close>.\<close>

definition getDismissAnimationDirection :: "component \<Rightarrow> bool option \<times> bool option" where
  "getDismissAnimationDirection this =
     (let sd = swipeDirections (ctx (props this));
          dd = dragDirections (ctx (props this));
          hasHorizontalSwipe = present (axis_x sd);
          hasVerticalSwipe = present (axis_y sd)
      in if hasHorizontalSwipe \<or> hasVerticalSwipe then
           (if hasHorizontalSwipe then Some (axis_x sd = Some RIGHT) else None,
            if hasVerticalSwipe then Some (axis_y sd = Some DOWN) else None)
         else
           (if present (axis_x dd) then Some (axis_x dd = Some RIGHT) else None,
            if present (axis_y dd) then Some (axis_y dd = Some DOWN) else None))"

text \<open>The off-screen target of one axis: \<^verbatim>\<open>toX\<close> and \<^verbatim>\<open>toY\<close> of \<^verbatim>\<open>animateDismiss\<close>.\<close>

definition dismiss_target :: "real \<Rightarrow> jsval \<Rightarrow> bool option \<Rightarrow> jsval" where
  "dismiss_target screen extent positive =
     (case positive of
        None \<Rightarrow> Undefined
      | Some b \<Rightarrow> (let maxSize = plus_js (Num screen) extent in if b then maxSize else neg maxSize))"

definition animateDismiss :: "constants \<Rightarrow> bool option \<Rightarrow> bool option \<Rightarrow> component \<Rightarrow> component" where
  "animateDismiss env isRight isDown this =
     (let toX = dismiss_target (screenWidth env) (width this) isRight;
          toY = dismiss_target (screenHeight env) (height this) isDown;
          animations =
            (if \<not> isUndefined toX
             then [Timing TranslateX (Math_round toX) DEFAULT_DISMISS_ANIMATION_DURATION] else []) @
            (if \<not> isUndefined toY
             then [Timing TranslateY (Math_round toY) DEFAULT_DISMISS_ANIMATION_DURATION] else [])
      in this\<lparr>isAnimating := True,
              pending := pending this @ [(generation this, animations, DismissAnimationFinished)]\<rparr>)"

definition animateToInitialPosition :: "component \<Rightarrow> component" where
  "animateToInitialPosition this =
     (let speed = animationSpeed (animationOptions (props this));
          bounciness = animationBounciness (animationOptions (props this));
          toX = neg (left this);
          toY = neg (top_y this);
          animations =
            (if \<not> isUndefined toX
             then [Spring TranslateX (Math_round toX) speed bounciness] else []) @
            (if \<not> isUndefined toY
             then [Spring TranslateY (Math_round toY) speed bounciness] else [])
      in this\<lparr>isAnimating := True,
              pending := pending this @ [(generation this, animations, InitAnimationFinished)]\<rparr>)"

definition onInitAnimationFinished :: "component \<Rightarrow> component" where
  "onInitAnimationFinished this = initPositions (this\<lparr>isAnimating := False\<rparr>)"

text \<open>\<^verbatim>\<open>_.invoke(this.props, 'onDismiss')\<close> calls the prop when it was given.\<close>

definition onDismiss_method :: "component \<Rightarrow> component" where
  "onDismiss_method this =
     (if onDismiss (props this) then this\<lparr>calls := calls this @ [DismissCallback]\<rparr> else this)"

definition onDismissAnimationFinished :: "bool \<Rightarrow> component \<Rightarrow> component" where
  "onDismissAnimationFinished finished this =
     (if finished then onDismiss_method this else this)"

text \<open>
  Reading \<^verbatim>\<open>this.swipe.x\<close> while \<^verbatim>\<open>this.swipe\<close> is unassigned throws a \<^verbatim>\<open>TypeError\<close>.
\<close>

definition onPanEnd :: "constants \<Rightarrow> component \<Rightarrow> error + component" where
  "onPanEnd env this0 =
     (let this = this0\<lparr>calls := calls this0 @ [PanEndCall]\<rparr>;
          dirs = directions (props this)
      in case swipe this of
           None \<Rightarrow> Inl TypeError
         | Some sw \<Rightarrow>
             if present (axis_x sw) \<or> present (axis_y sw) then
               (case getDismissAnimationDirection this of
                  (isRight, isDown) \<Rightarrow> Inr (animateDismiss env isRight isDown this))
             else
               (let endValue_x = Math_round (left this);
                    endValue_y = Math_round (top_y this)
                in if (LEFT \<in> set dirs \<and> le_js endValue_x (neg (thresholdX this))) \<or>
                      (RIGHT \<in> set dirs \<and> ge_js endValue_x (thresholdX this)) \<or>
                      (UP \<in> set dirs \<and> le_js endValue_y (neg (thresholdY this))) \<or>
                      (DOWN \<in> set dirs \<and> ge_js endValue_y (thresholdY this))
                   then
                     (case getDismissAnimationDirection this of
                        (isRight, isDown) \<Rightarrow> Inr (animateDismiss env isRight isDown this))
                   else Inr (animateToInitialPosition this)))"

text \<open>\<^verbatim>\<open>!==\<close> on the entries of a directions object (a direction or a missing key).\<close>

definition strict_neq_direction :: "direction option \<Rightarrow> direction option \<Rightarrow> bool" where
  "strict_neq_direction a b = (a \<noteq> b)"

text \<open>
  \<^verbatim>\<open>componentDidUpdate(prevProps)\<close>: \<open>prev\<close> is \<^verbatim>\<open>prevProps.context\<close>, the current context is
  in the props of the instance. \<open>isAnimating\<close> is read once, on entry.
\<close>

definition componentDidUpdate :: "constants \<Rightarrow> pan_context \<Rightarrow> component \<Rightarrow> error + component" where
  "componentDidUpdate env prev this =
     (let animating = isAnimating this;
          c = ctx (props this);
          r1 = (if isPanning c \<noteq> isPanning prev then
                  (if isPanning c \<and> \<not> animating then Inr (onPanStart this) else onPanEnd env this)
                else Inr this)
      in case r1 of
           Inl e \<Rightarrow> Inl e
         | Inr this1 \<Rightarrow>
             (let this2 =
                    (if isPanning c \<and>
                        (truthy (delta_x (dragDeltas c)) \<or> truthy (delta_y (dragDeltas c))) \<and>
                        (strict_neq (delta_x (dragDeltas c)) (delta_x (dragDeltas prev)) \<or>
                         strict_neq (delta_y (dragDeltas c)) (delta_y (dragDeltas prev)))
                     then onDrag (dragDeltas c) this1 else this1);
                  this3 =
                    (if isPanning c \<and>
                        (present (axis_x (swipeDirections c)) \<or>
                         present (axis_y (swipeDirections c))) \<and>
                        (strict_neq_direction (axis_x (swipeDirections c)) (axis_x (swipeDirections prev)) \<or>
                         strict_neq_direction (axis_y (swipeDirections c)) (axis_y (swipeDirections prev)))
                     then onSwipe (swipeDirections c) this2 else this2)
              in Inr this3))"

datatype transform = translateX jsval | translateY jsval

text \<open>The \<^verbatim>\<open>transform\<close> entry of the style that \<^verbatim>\<open>render\<close> passes to the view.\<close>

definition render_transform :: "component \<Rightarrow> transform list" where
  "render_transform this =
     (if isAnimating this
      then [translateX (animTranslateX this), translateY (animTranslateY this)] else [])"

subsection \<open>The animation runtime\<close>

text \<open>
  \<^verbatim>\<open>Animated\<close> is outside this file; what the component relies on is modelled here.
  Starting an animation on a value stops the animation that is running on that value, and
  a stopped animation ends with \<^verbatim>\<open>finished = false\<close>. \<^verbatim>\<open>Animated.parallel\<close> stops all its
  animations as soon as one of them is stopped and calls its callback once, when all of
  them have ended; with no animation at all it calls the callback at once, with
  \<^verbatim>\<open>finished = true\<close>. Two parallel animations meet on a value when they were built on the
  same generation of channels and have a channel in common. The animations of one
  \<^verbatim>\<open>Animated.parallel\<close> are taken to end together.
\<close>

definition overlaps :: "started \<Rightarrow> started \<Rightarrow> bool" where
  "overlaps a b =
     (fst a = fst b \<and>
      list_ex (\<lambda>x. channel_of x \<in> set (map channel_of (fst (snd b)))) (fst (snd a)))"

definition run_callback :: "completion \<Rightarrow> bool \<Rightarrow> component \<Rightarrow> component" where
  "run_callback cb finished this =
     (case cb of
        InitAnimationFinished \<Rightarrow> onInitAnimationFinished this
      | DismissAnimationFinished \<Rightarrow> onDismissAnimationFinished finished this)"

text \<open>\<^verbatim>\<open>Animated.parallel(animations).start(callback)\<close>\<close>

definition start_animation :: "started \<Rightarrow> component \<Rightarrow> component" where
  "start_animation s this =
     (if fst (snd s) = [] then run_callback (snd (snd s)) True this
      else
        (let stopped = filter (overlaps s) (inflight this);
             this1 = this\<lparr>inflight := filter (\<lambda>a. \<not> overlaps s a) (inflight this)\<rparr>;
             this2 = fold (\<lambda>a. run_callback (snd (snd a)) False) stopped this1
         in this2\<lparr>inflight := inflight this2 @ [s]\<rparr>))"

text \<open>The callbacks of \<^verbatim>\<open>setState\<close> run once the update is committed, in the order queued.\<close>

definition flush_pending :: "component \<Rightarrow> component" where
  "flush_pending this = fold start_animation (pending this) (this\<lparr>pending := []\<rparr>)"

text \<open>An animation that finished has driven its channels to their targets.\<close>

fun reach_target :: "animation \<Rightarrow> component \<Rightarrow> component" where
  "reach_target (Spring TranslateX v _ _) this = this\<lparr>animTranslateX := v\<rparr>"
| "reach_target (Spring TranslateY v _ _) this = this\<lparr>animTranslateY := v\<rparr>"
| "reach_target (Timing TranslateX v _) this = this\<lparr>animTranslateX := v\<rparr>"
| "reach_target (Timing TranslateY v _) this = this\<lparr>animTranslateY := v\<rparr>"

definition remove_nth :: "nat \<Rightarrow> 'a list \<Rightarrow> 'a list" where
  "remove_nth k xs = take k xs @ drop (Suc k) xs"

text \<open>
  The runtime reports the end of the animation at position \<open>k\<close> of those in flight. Its
  targets reach the state only when it drove the channels that are still in the state.
\<close>

definition animation_end :: "nat \<Rightarrow> bool \<Rightarrow> component \<Rightarrow> component" where
  "animation_end k finished this =
     (if k < length (inflight this) then
        (case inflight this ! k of
           (g, animations, cb) \<Rightarrow>
             (let this1 = (if finished \<and> g = generation this
                           then fold reach_target animations this else this)
                            \<lparr>inflight := remove_nth k (inflight this)\<rparr>
              in run_callback cb finished this1))
      else this)"

subsection \<open>The component driven by its environment\<close>

text \<open>
  The host delivers four kinds of event: React attaches the view to \<^verbatim>\<open>this.ref\<close>; the view
  reports a layout; the provider hands down a new context, which runs
  \<^verbatim>\<open>componentDidUpdate\<close> and then the callbacks it queued; the animation runtime reports the
  end of an animation in flight, with \<^verbatim>\<open>finished\<close>. The renders that the component's own
  \<^verbatim>\<open>setState\<close> calls cause run \<^verbatim>\<open>componentDidUpdate\<close> with unchanged props: they are updates
  with the context that is already there.
\<close>

datatype event =
  Attach
| Layout real real
| Update pan_context
| AnimationEnd nat bool

fun step :: "constants \<Rightarrow> event \<Rightarrow> component \<Rightarrow> error + component" where
  "step env Attach this = Inr (this\<lparr>ref_current := True\<rparr>)"
| "step env (Layout w h) this = Inr (onLayout w h this)"
| "step env (Update c) this =
     (case componentDidUpdate env (ctx (props this)) (this\<lparr>props := (props this)\<lparr>ctx := c\<rparr>\<rparr>) of
        Inl err \<Rightarrow> Inl err
      | Inr this' \<Rightarrow> Inr (flush_pending this'))"
| "step env (AnimationEnd k finished) this = Inr (animation_end k finished this)"

fun run :: "constants \<Rightarrow> event list \<Rightarrow> component \<Rightarrow> error + component" where
  "run env [] this = Inr this"
| "run env (e # es) this =
     (case step env e this of Inl err \<Rightarrow> Inl err | Inr this' \<Rightarrow> run env es this')"

subsection \<open>Derived notions and sample inputs\<close>

text \<open>The geometry that a layout event records.\<close>

definition geometry ::
  "component \<Rightarrow> jsval \<times> jsval \<times> jsval \<times> jsval \<times> jsval \<times> jsval" where
  "geometry this =
     (width this, height this, thresholdX this, thresholdY this,
      originalLeft this, originalTop this)"

text \<open>What the drag-tracking path leaves alone.\<close>

definition drag_frame ::
  "component \<Rightarrow>
   bool \<times> started list \<times> jsval \<times> jsval \<times> jsval \<times> jsval \<times> nat \<times> bool \<times> started list" where
  "drag_frame this =
     (ref_current this, pending this, originalLeft this, originalTop this,
      animTranslateX this, animTranslateY this, generation this, isAnimating this,
      inflight this)"

text \<open>A context written out field by field, a provider at rest, and a 400 by 800 screen.\<close>

definition ctx_of ::
  "bool \<Rightarrow> jsval \<Rightarrow> jsval \<Rightarrow> direction option \<Rightarrow> direction option \<Rightarrow>
   direction option \<Rightarrow> direction option \<Rightarrow> pan_context" where
  "ctx_of p dx dy sx sy gx gy =
     \<lparr>isPanning = p, dragDeltas = \<lparr>delta_x = dx, delta_y = dy\<rparr>,
      swipeDirections = \<lparr>axis_x = sx, axis_y = sy\<rparr>,
      dragDirections = \<lparr>axis_x = gx, axis_y = gy\<rparr>\<rparr>"

definition idle :: pan_context where
  "idle = ctx_of False Undefined Undefined None None None None"

definition phone :: constants where
  "phone = \<lparr>screenWidth = 400, screenHeight = 800\<rparr>"

section \<open>Properties\<close>

subsection \<open>Auxiliary facts\<close>

lemmas method_defs = setNativeProps_def initPositions_def get_or_0_def onLayout_def onPanStart_def
  onDrag_def onSwipe_def getDismissAnimationDirection_def dismiss_target_def animateDismiss_def
  animateToInitialPosition_def onInitAnimationFinished_def onDismiss_method_def
  onDismissAnimationFinished_def onPanEnd_def componentDidUpdate_def animation_end_def
  overlaps_def run_callback_def start_animation_def flush_pending_def remove_nth_def
  strict_neq_direction_def

lemmas sample_defs = constructor_def defaultProps_def idle_def phone_def ctx_of_def
  DEFAULT_SPEED_def DEFAULT_BOUNCINESS_def DEFAULT_DISMISS_ANIMATION_DURATION_def
  round_half_up_def Let_def

lemma fold_frame:
  assumes "\<And>x s. q (f x s) = q s"
  shows "q (fold f xs s) = q s"
  using assms by (induction xs arbitrary: s) simp_all

lemma round_half_up_near: "\<bar>round_half_up r - r\<bar> \<le> 1 / 2"
  unfolding round_half_up_def by linarith

lemma round_half_up_int: "r \<in> \<int> \<Longrightarrow> round_half_up r = r"
  unfolding round_half_up_def by (auto elim!: Ints_cases)

lemma isUndefined_iff: "isUndefined v \<longleftrightarrow> v = Undefined"
  by (cases v) simp_all

lemma geometry_setNativeProps: "geometry (setNativeProps l t this) = geometry this"
  by (simp add: geometry_def setNativeProps_def)

lemma geometry_initPositions: "geometry (initPositions this) = geometry this"
  by (simp add: geometry_def initPositions_def setNativeProps_def)

lemma onPanEnd_cases:
  assumes "onPanEnd env this = Inr this'"
  shows "(\<exists>r d. this' = animateDismiss env r d (this\<lparr>calls := calls this @ [PanEndCall]\<rparr>)) \<or>
         this' = animateToInitialPosition (this\<lparr>calls := calls this @ [PanEndCall]\<rparr>)"
proof (cases "swipe this")
  case None
  with assms show ?thesis by (simp add: onPanEnd_def)
next
  case (Some sw)
  obtain r d where rd: "getDismissAnimationDirection (this\<lparr>calls := calls this @ [PanEndCall]\<rparr>) = (r, d)"
    by (cases "getDismissAnimationDirection (this\<lparr>calls := calls this @ [PanEndCall]\<rparr>)")
  from assms Some rd show ?thesis
    unfolding onPanEnd_def Let_def by (simp split: if_splits) blast+
qed

lemma geometry_animateDismiss: "geometry (animateDismiss env r d this) = geometry this"
  by (simp add: geometry_def animateDismiss_def Let_def)

lemma geometry_animateToInitialPosition: "geometry (animateToInitialPosition this) = geometry this"
  by (simp add: geometry_def animateToInitialPosition_def Let_def)

lemma geometry_calls: "geometry (this\<lparr>calls := cs\<rparr>) = geometry this"
  by (simp add: geometry_def)

lemma geometry_onPanEnd: "onPanEnd env this = Inr this' \<Longrightarrow> geometry this' = geometry this"
  using onPanEnd_cases [of env this this']
  by (auto simp: geometry_animateDismiss geometry_animateToInitialPosition geometry_calls)

lemma geometry_onPanStart: "geometry (onPanStart this) = geometry this"
  by (simp add: geometry_def onPanStart_def)

lemma geometry_onDrag: "geometry (onDrag d this) = geometry this"
  by (simp add: onDrag_def Let_def geometry_setNativeProps geometry_calls)

lemma geometry_onSwipe: "geometry (onSwipe sd this) = geometry this"
  by (simp add: geometry_def onSwipe_def)

lemma componentDidUpdate_cases:
  assumes "componentDidUpdate env prev this = Inr this'"
  obtains this1 this2 where
    "this1 = this \<or> this1 = onPanStart this \<or> onPanEnd env this = Inr this1"
    "this2 = this1 \<or> this2 = onDrag (dragDeltas (ctx (props this))) this1"
    "this' = this2 \<or> this' = onSwipe (swipeDirections (ctx (props this))) this2"
  using assms unfolding componentDidUpdate_def strict_neq_direction_def Let_def
  by (auto split: sum.splits if_splits)

lemma geometry_componentDidUpdate:
  assumes "componentDidUpdate env prev this = Inr this'"
  shows "geometry this' = geometry this"
proof -
  from assms obtain this1 this2 where
    a: "this1 = this \<or> this1 = onPanStart this \<or> onPanEnd env this = Inr this1" and
    b: "this2 = this1 \<or> this2 = onDrag (dragDeltas (ctx (props this))) this1" and
    c: "this' = this2 \<or> this' = onSwipe (swipeDirections (ctx (props this))) this2"
    by (rule componentDidUpdate_cases)
  from a have "geometry this1 = geometry this"
    by (auto simp: geometry_onPanStart geometry_onPanEnd)
  moreover from b have "geometry this2 = geometry this1"
    by (auto simp: geometry_onDrag)
  moreover from c have "geometry this' = geometry this2"
    by (auto simp: geometry_onSwipe)
  ultimately show ?thesis by simp
qed

lemma geometry_fields:
  "geometry (this\<lparr>inflight := xs\<rparr>) = geometry this"
  "geometry (this\<lparr>pending := ys\<rparr>) = geometry this"
  "geometry (this\<lparr>isAnimating := b\<rparr>) = geometry this"
  by (simp_all add: geometry_def)

lemma geometry_run_callback: "geometry (run_callback cb finished this) = geometry this"
  by (simp add: run_callback_def onInitAnimationFinished_def onDismissAnimationFinished_def
      onDismiss_method_def geometry_initPositions geometry_fields geometry_calls
      split: completion.split)

lemma geometry_start_animation: "geometry (start_animation s this) = geometry this"
proof -
  have f: "geometry (fold (\<lambda>a. run_callback (snd (snd a)) False) xs u) = geometry u" for xs u
    by (rule fold_frame) (rule geometry_run_callback)
  show ?thesis
    by (simp add: start_animation_def Let_def geometry_run_callback geometry_fields f)
qed

lemma geometry_flush_pending: "geometry (flush_pending this) = geometry this"
proof -
  have f: "geometry (fold start_animation xs u) = geometry u" for xs u
    by (rule fold_frame) (rule geometry_start_animation)
  show ?thesis
    by (simp add: flush_pending_def geometry_fields f)
qed

lemma geometry_reach_targets: "geometry (fold reach_target as this) = geometry this"
proof (rule fold_frame)
  fix a s
  show "geometry (reach_target a s) = geometry s"
    by (cases "(a, s)" rule: reach_target.cases) (simp_all add: geometry_def)
qed

lemma geometry_animation_end: "geometry (animation_end k finished this) = geometry this"
proof (cases "k < length (inflight this)")
  case False
  then show ?thesis by (simp add: animation_end_def)
next
  case True
  obtain g as cb where n: "inflight this ! k = (g, as, cb)"
    by (cases "inflight this ! k")
  from True n show ?thesis
    by (simp add: animation_end_def Let_def geometry_run_callback geometry_reach_targets
        geometry_fields)
qed

lemma onLayout_ignored: "height this \<noteq> Undefined \<Longrightarrow> onLayout w h this = this"
  by (simp add: onLayout_def isUndefined_iff)

lemma geometry_step_other:
  assumes "step env e this = Inr this'" and "\<forall>w h. e \<noteq> Layout w h"
  shows "geometry this' = geometry this"
proof (cases e)
  case Attach
  with assms show ?thesis by (auto simp: geometry_def)
next
  case (Layout w h)
  with assms show ?thesis by simp
next
  case (Update c)
  let ?u = "this\<lparr>props := (props this)\<lparr>ctx := c\<rparr>\<rparr>"
  from assms(1) Update obtain v where
    v: "componentDidUpdate env (ctx (props this)) ?u = Inr v" and t: "this' = flush_pending v"
    by (auto split: sum.splits)
  have "geometry ?u = geometry this"
    by (simp add: geometry_def)
  with geometry_componentDidUpdate [OF v] t show ?thesis
    by (simp add: geometry_flush_pending)
next
  case (AnimationEnd k finished)
  with assms show ?thesis by (auto simp: geometry_animation_end)
qed

lemma geometry_step:
  assumes "step env e this = Inr this'" and "height this \<noteq> Undefined"
  shows "geometry this' = geometry this"
proof (cases "\<exists>w h. e = Layout w h")
  case True
  with assms show ?thesis by (auto simp: onLayout_ignored)
next
  case False
  with assms(1) show ?thesis by (simp add: geometry_step_other)
qed

lemma geometry_before_layout:
  "run env es this = Inr this' \<Longrightarrow> \<forall>w h. Layout w h \<notin> set es \<Longrightarrow>
   geometry this' = geometry this"
proof (induction es arbitrary: this)
  case Nil
  then show ?case by simp
next
  case (Cons e es)
  from Cons.prems(1) obtain this1 where
    s: "step env e this = Inr this1" and r: "run env es this1 = Inr this'"
    by (auto split: sum.splits)
  from Cons.prems(2) have "\<forall>w h. e \<noteq> Layout w h" and l: "\<forall>w h. Layout w h \<notin> set es"
    by auto
  with s have "geometry this1 = geometry this"
    by (simp add: geometry_step_other)
  with Cons.IH [OF r l] show ?case by simp
qed

lemma geometry_run:
  "run env es this = Inr this' \<Longrightarrow> height this \<noteq> Undefined \<Longrightarrow> geometry this' = geometry this"
proof (induction es arbitrary: this)
  case Nil
  then show ?case by simp
next
  case (Cons e es)
  from Cons.prems(1) obtain this1 where
    s: "step env e this = Inr this1" and r: "run env es this1 = Inr this'"
    by (auto split: sum.splits)
  from s Cons.prems(2) have g: "geometry this1 = geometry this"
    by (rule geometry_step)
  with Cons.prems(2) have "height this1 \<noteq> Undefined"
    by (simp add: geometry_def)
  with Cons.IH r g show ?case by simp
qed

subsection \<open>Layout capture\<close>

text \<open>
  Claim C7. On an instance that has not been measured yet (\<^verbatim>\<open>this.height\<close> undefined) and
  whose view is attached, a layout event records width and height, sets the thresholds to
  half of them, captures the \<^verbatim>\<open>left\<close> and \<^verbatim>\<open>top\<close> of the style (0 when absent) as the
  origin, and puts both the position and the two animation channels at that origin. From
  then on, whatever events follow, the recorded geometry stays as it is and a layout event
  changes nothing at all. A freshly constructed instance stays unmeasured until its first
  layout event, whatever other events come before.
\<close>

theorem onLayout_first_only:
  assumes "height this = Undefined" and "ref_current this"
  shows "width (onLayout w h this) = Num w \<and>
         height (onLayout w h this) = Num h \<and>
         thresholdX (onLayout w h this) = Num (w / 2) \<and>
         thresholdY (onLayout w h this) = Num (h / 2) \<and>
         originalLeft (onLayout w h this) =
           (case style_left (props this) of None \<Rightarrow> Num 0 | Some r \<Rightarrow> Num r) \<and>
         originalTop (onLayout w h this) =
           (case style_top (props this) of None \<Rightarrow> Num 0 | Some r \<Rightarrow> Num r) \<and>
         left (onLayout w h this) = originalLeft (onLayout w h this) \<and>
         top_y (onLayout w h this) = originalTop (onLayout w h this) \<and>
         animTranslateX (onLayout w h this) = originalLeft (onLayout w h this) \<and>
         animTranslateY (onLayout w h this) = originalTop (onLayout w h this) \<and>
         (\<forall>es this' w' h'. run env es (onLayout w h this) = Inr this' \<longrightarrow>
            geometry this' = geometry (onLayout w h this) \<and> onLayout w' h' this' = this') \<and>
         (\<forall>p es this'. (\<forall>w' h'. Layout w' h' \<notin> set es) \<and>
            run env es (constructor p) = Inr this' \<longrightarrow> height this' = Undefined)"
proof -
  have first: "onLayout w h this =
      initPositions
        (this\<lparr>height := Num h, thresholdY := Num (h / 2), width := Num w,
              thresholdX := Num (w / 2),
              originalLeft := get_or_0 (style_left (props this)),
              originalTop := get_or_0 (style_top (props this))\<rparr>)"
    using assms(1) by (simp add: onLayout_def)
  have hd: "height (onLayout w h this) \<noteq> Undefined"
    by (simp add: first initPositions_def setNativeProps_def)
  have later: "geometry this' = geometry (onLayout w h this) \<and> onLayout w' h' this' = this'"
    if "run env es (onLayout w h this) = Inr this'" for es this' w' h'
  proof -
    from that hd have g: "geometry this' = geometry (onLayout w h this)"
      by (rule geometry_run)
    with hd have "height this' \<noteq> Undefined"
      by (simp add: geometry_def)
    with g show ?thesis by (simp add: onLayout_ignored)
  qed
  have fields: "width (onLayout w h this) = Num w"
    "height (onLayout w h this) = Num h"
    "thresholdX (onLayout w h this) = Num (w / 2)"
    "thresholdY (onLayout w h this) = Num (h / 2)"
    "originalLeft (onLayout w h this) =
       (case style_left (props this) of None \<Rightarrow> Num 0 | Some r \<Rightarrow> Num r)"
    "originalTop (onLayout w h this) =
       (case style_top (props this) of None \<Rightarrow> Num 0 | Some r \<Rightarrow> Num r)"
    "left (onLayout w h this) = originalLeft (onLayout w h this)"
    "top_y (onLayout w h this) = originalTop (onLayout w h this)"
    "animTranslateX (onLayout w h this) = originalLeft (onLayout w h this)"
    "animTranslateY (onLayout w h this) = originalTop (onLayout w h this)"
    using assms(2) by (simp_all add: first initPositions_def setNativeProps_def get_or_0_def)
  have before: "height this' = Undefined"
    if "\<forall>w' h'. Layout w' h' \<notin> set es" and "run env es (constructor p) = Inr this'"
    for p es this'
  proof -
    from that have "geometry this' = geometry (constructor p)"
      by (simp add: geometry_before_layout)
    then show ?thesis
      by (simp add: geometry_def constructor_def)
  qed
  from fields later before show ?thesis by blast
qed

theorem onLayout_first_only_witness:
  "height ((constructor (defaultProps idle))\<lparr>ref_current := True\<rparr>) = Undefined \<and>
   ref_current ((constructor (defaultProps idle))\<lparr>ref_current := True\<rparr>) \<and>
   \<not> isl (run phone [Update (ctx_of True Undefined Undefined None None None None), Layout 300 300]
            (onLayout 100 200 ((constructor (defaultProps idle))\<lparr>ref_current := True\<rparr>))) \<and>
   width (onLayout 100 200 ((constructor (defaultProps idle))\<lparr>ref_current := True\<rparr>)) = Num 100 \<and>
   thresholdX (onLayout 100 200 ((constructor (defaultProps idle))\<lparr>ref_current := True\<rparr>)) = Num 50 \<and>
   onLayout 300 300
     (projr (run phone [Update (ctx_of True Undefined Undefined None None None None), Layout 300 300]
            (onLayout 100 200 ((constructor (defaultProps idle))\<lparr>ref_current := True\<rparr>)))) =
     projr (run phone [Update (ctx_of True Undefined Undefined None None None None), Layout 300 300]
            (onLayout 100 200 ((constructor (defaultProps idle))\<lparr>ref_current := True\<rparr>))) \<and>
   \<not> isl (run phone [Attach, Update (ctx_of True Undefined Undefined None None None None)]
            (constructor (defaultProps idle))) \<and>
   height (projr (run phone [Attach, Update (ctx_of True Undefined Undefined None None None None)]
            (constructor (defaultProps idle)))) = Undefined"
proof -
  let ?c = "(constructor (defaultProps idle))\<lparr>ref_current := True\<rparr>"
  let ?es = "[Update (ctx_of True Undefined Undefined None None None None), Layout 300 300]"
  let ?fs = "[Attach, Update (ctx_of True Undefined Undefined None None None None)]"
  have h1: "height ?c = Undefined" by (simp add: constructor_def)
  have h2: "ref_current ?c" by simp
  have r: "\<not> isl (run phone ?es (onLayout 100 200 ?c))"
    by (simp add: sample_defs method_defs)
  then have r': "run phone ?es (onLayout 100 200 ?c) = Inr (projr (run phone ?es (onLayout 100 200 ?c)))"
    by (cases "run phone ?es (onLayout 100 200 ?c)") simp_all
  have q: "\<not> isl (run phone ?fs (constructor (defaultProps idle)))"
    by (simp add: sample_defs method_defs)
  then have q': "run phone ?fs (constructor (defaultProps idle)) =
      Inr (projr (run phone ?fs (constructor (defaultProps idle))))"
    by (cases "run phone ?fs (constructor (defaultProps idle))") simp_all
  have nl: "\<forall>w' h'. Layout w' h' \<notin> set ?fs"
    by simp
  note T = onLayout_first_only [OF h1 h2, of 100 200 phone]
  from T r' have l: "onLayout 300 300 (projr (run phone ?es (onLayout 100 200 ?c))) =
      projr (run phone ?es (onLayout 100 200 ?c))"
    by blast
  from T have w: "width (onLayout 100 200 ?c) = Num 100"
    by blast
  from T have "thresholdX (onLayout 100 200 ?c) = Num (100 / 2)"
    by blast
  then have t: "thresholdX (onLayout 100 200 ?c) = Num 50"
    by simp
  from T q' nl have b: "height (projr (run phone ?fs (constructor (defaultProps idle)))) = Undefined"
    by blast
  from h1 h2 r w t l q b show ?thesis
    by blast
qed

subsection \<open>Completion of the dismiss animation\<close>

lemma calls_reach_targets: "calls (fold reach_target as this) = calls this"
proof (rule fold_frame)
  fix a s
  show "calls (reach_target a s) = calls s"
    by (cases "(a, s)" rule: reach_target.cases) simp_all
qed

lemma props_reach_targets: "props (fold reach_target as this) = props this"
proof (rule fold_frame)
  fix a s
  show "props (reach_target a s) = props s"
    by (cases "(a, s)" rule: reach_target.cases) simp_all
qed

lemma stopped_callback_silent:
  "count_list (calls (run_callback cb False this)) DismissCallback =
   count_list (calls this) DismissCallback"
  by (simp add: run_callback_def onInitAnimationFinished_def initPositions_def
      setNativeProps_def onDismissAnimationFinished_def split: completion.split)

lemma stopped_callbacks_silent:
  "count_list (calls (fold (\<lambda>a. run_callback (snd (snd a)) False) xs this)) DismissCallback =
   count_list (calls this) DismissCallback"
  using fold_frame [where q = "\<lambda>s. count_list (calls s) DismissCallback"
      and f = "\<lambda>a. run_callback (snd (snd a)) False"]
  by (simp add: stopped_callback_silent)

text \<open>
  Claim C4. When the \<^verbatim>\<open>onDismiss\<close> prop is given and a dismiss animation is in flight, the
  report of its end invokes the prop exactly once when \<^verbatim>\<open>finished\<close> is true and not at all
  when it is false; the animation is then no longer in flight, so it cannot end a second
  time. Starting another animation, which is what interrupts one in flight, never invokes
  the prop.
\<close>

theorem onDismiss_once_per_completed_dismiss:
  assumes "onDismiss (props this)"
    and "k < length (inflight this)"
    and "inflight this ! k = (g, as, DismissAnimationFinished)"
  shows "count_list (calls (onDismissAnimationFinished finished this)) DismissCallback =
           count_list (calls this) DismissCallback + (if finished then 1 else 0) \<and>
         count_list (calls (animation_end k finished this)) DismissCallback =
           count_list (calls this) DismissCallback + (if finished then 1 else 0) \<and>
         inflight (animation_end k finished this) = remove_nth k (inflight this) \<and>
         (\<forall>s. fst (snd s) \<noteq> [] \<longrightarrow>
            count_list (calls (start_animation s this)) DismissCallback =
              count_list (calls this) DismissCallback)"
proof -
  have a: "count_list (calls (onDismissAnimationFinished finished this)) DismissCallback =
           count_list (calls this) DismissCallback + (if finished then 1 else 0)"
    using assms(1) by (simp add: onDismissAnimationFinished_def onDismiss_method_def)
  have b: "count_list (calls (animation_end k finished this)) DismissCallback =
           count_list (calls this) DismissCallback + (if finished then 1 else 0)"
    "inflight (animation_end k finished this) = remove_nth k (inflight this)"
    using assms
    by (simp_all add: animation_end_def run_callback_def onDismissAnimationFinished_def
        onDismiss_method_def Let_def calls_reach_targets props_reach_targets)
  have c: "count_list (calls (start_animation s this)) DismissCallback =
              count_list (calls this) DismissCallback" if "fst (snd s) \<noteq> []" for s
    using that by (simp add: start_animation_def Let_def stopped_callbacks_silent)
  from a b c show ?thesis by blast
qed

theorem onDismiss_once_per_completed_dismiss_witness:
  "onDismiss (props (flush_pending (animateDismiss phone (Some True) None
      (onLayout 100 200
        ((constructor ((defaultProps idle)\<lparr>onDismiss := True\<rparr>))\<lparr>ref_current := True\<rparr>))))) \<and>
   inflight (flush_pending (animateDismiss phone (Some True) None
      (onLayout 100 200
        ((constructor ((defaultProps idle)\<lparr>onDismiss := True\<rparr>))\<lparr>ref_current := True\<rparr>)))) =
     [(1, [Timing TranslateX (Num 500) 280], DismissAnimationFinished)] \<and>
   count_list (calls (animation_end 0 True (flush_pending (animateDismiss phone (Some True) None
      (onLayout 100 200
        ((constructor ((defaultProps idle)\<lparr>onDismiss := True\<rparr>))\<lparr>ref_current := True\<rparr>)))))) DismissCallback = 1 \<and>
   count_list (calls (animation_end 0 False (flush_pending (animateDismiss phone (Some True) None
      (onLayout 100 200
        ((constructor ((defaultProps idle)\<lparr>onDismiss := True\<rparr>))\<lparr>ref_current := True\<rparr>)))))) DismissCallback = 0 \<and>
   count_list (calls (start_animation (1, [Timing TranslateX (Num (- 500)) 280], DismissAnimationFinished)
     (flush_pending (animateDismiss phone (Some True) None
      (onLayout 100 200
        ((constructor ((defaultProps idle)\<lparr>onDismiss := True\<rparr>))\<lparr>ref_current := True\<rparr>)))))) DismissCallback = 0"
proof -
  let ?s = "flush_pending (animateDismiss phone (Some True) None
      (onLayout 100 200
        ((constructor ((defaultProps idle)\<lparr>onDismiss := True\<rparr>))\<lparr>ref_current := True\<rparr>)))"
  have p: "onDismiss (props ?s)"
    by (simp add: sample_defs method_defs)
  have i: "inflight ?s = [(1, [Timing TranslateX (Num 500) 280], DismissAnimationFinished)]"
    by (simp add: sample_defs method_defs)
  then have k: "0 < length (inflight ?s)"
    and n: "inflight ?s ! 0 = (1, [Timing TranslateX (Num 500) 280], DismissAnimationFinished)"
    by simp_all
  have c: "count_list (calls ?s) DismissCallback = 0"
    by (simp add: sample_defs method_defs)
  from onDismiss_once_per_completed_dismiss [OF p k n, of True] c
  have t: "count_list (calls (animation_end 0 True ?s)) DismissCallback = 1"
    by simp
  from onDismiss_once_per_completed_dismiss [OF p k n, of False] c
  have f: "count_list (calls (animation_end 0 False ?s)) DismissCallback = 0"
    by simp
  from onDismiss_once_per_completed_dismiss [OF p k n, of True, THEN conjunct2, THEN conjunct2,
      THEN conjunct2, rule_format,
      of "(1, [Timing TranslateX (Num (- 500)) 280], DismissAnimationFinished)"] c
  have u: "count_list (calls (start_animation
      (1, [Timing TranslateX (Num (- 500)) 280], DismissAnimationFinished) ?s)) DismissCallback = 0"
    by simp
  from p i t f u show ?thesis by blast
qed

subsection \<open>Dismiss animation\<close>

lemma start_on_idle:
  assumes "fst (snd s) \<noteq> []" and "inflight this = []"
  shows "inflight (start_animation s this) = [s]"
  using assms by (simp add: start_animation_def Let_def)

lemma onPanEnd_ignores_duration_prop:
  "map_sum id pending (onPanEnd env (this\<lparr>props := (props this)\<lparr>dismissAnimationDuration := d\<rparr>\<rparr>)) =
   map_sum id pending (onPanEnd env this)"
  by (simp add: onPanEnd_def Let_def getDismissAnimationDirection_def animateDismiss_def
      animateToInitialPosition_def split: option.split)

text \<open>
  Claim C5. Whatever the \<^verbatim>\<open>dismissAnimationDuration\<close> prop is set to, the dismiss animation
  is the same: \<^verbatim>\<open>animateDismiss\<close> hands the same animations to \<^verbatim>\<open>start\<close>, each a timing
  animation of 280 ms, and so does \<^verbatim>\<open>onPanEnd\<close> as a whole. The prop is never read.
\<close>

theorem dismiss_duration_ignores_prop:
  "pending (animateDismiss env isRight isDown
      (this\<lparr>props := (props this)\<lparr>dismissAnimationDuration := d\<rparr>\<rparr>)) =
     pending (animateDismiss env isRight isDown this) \<and>
   (\<exists>as. pending (animateDismiss env isRight isDown this) =
           pending this @ [(generation this, as, DismissAnimationFinished)] \<and>
      (\<forall>a \<in> set as. \<exists>c v. a = Timing c v DEFAULT_DISMISS_ANIMATION_DURATION)) \<and>
   DEFAULT_DISMISS_ANIMATION_DURATION = 280 \<and>
   map_sum id pending
     (onPanEnd env (this\<lparr>props := (props this)\<lparr>dismissAnimationDuration := d\<rparr>\<rparr>)) =
     map_sum id pending (onPanEnd env this)"
proof -
  have a: "pending (animateDismiss env isRight isDown
      (this\<lparr>props := (props this)\<lparr>dismissAnimationDuration := d\<rparr>\<rparr>)) =
     pending (animateDismiss env isRight isDown this)"
    by (simp add: animateDismiss_def Let_def)
  have b: "\<exists>as. pending (animateDismiss env isRight isDown this) =
           pending this @ [(generation this, as, DismissAnimationFinished)] \<and>
      (\<forall>a \<in> set as. \<exists>c v. a = Timing c v DEFAULT_DISMISS_ANIMATION_DURATION)"
    by (auto simp add: animateDismiss_def Let_def)
  have c: "DEFAULT_DISMISS_ANIMATION_DURATION = 280"
    by (simp add: DEFAULT_DISMISS_ANIMATION_DURATION_def)
  from a b c onPanEnd_ignores_duration_prop show ?thesis
    by blast
qed

theorem dismiss_duration_ignores_prop_witness:
  "pending (animateDismiss phone (Some True) (Some False)
      ((onLayout 100 200 ((constructor (defaultProps idle))\<lparr>ref_current := True\<rparr>))
         \<lparr>props := (defaultProps idle)\<lparr>dismissAnimationDuration := Some 1000\<rparr>\<rparr>)) =
     [(1, [Timing TranslateX (Num 500) 280, Timing TranslateY (Num (- 1000)) 280],
       DismissAnimationFinished)]"
proof -
  let ?s = "onLayout 100 200 ((constructor (defaultProps idle))\<lparr>ref_current := True\<rparr>)"
  have p: "props ?s = defaultProps idle"
    by (simp add: sample_defs method_defs)
  have "pending (animateDismiss phone (Some True) (Some False) ?s) =
      [(1, [Timing TranslateX (Num 500) 280, Timing TranslateY (Num (- 1000)) 280],
        DismissAnimationFinished)]"
    by (simp add: sample_defs method_defs)
  with dismiss_duration_ignores_prop [of phone "Some True" "Some False" "Some 1000" ?s] p
  show ?thesis by simp
qed

text \<open>
  Claim C3, as stated, fails on a view whose extent is not a whole number: the target is
  passed through \<^verbatim>\<open>Math.round\<close>. A view 100.25 wide on a screen 400 wide, dragged to the
  right beyond its threshold and released, is animated to 500, which is less than
  400 + 100.25.
\<close>

theorem animateDismiss_fractional_extent_counterexample:
  "width (projr (run phone
      [Attach, Layout (401 / 4) 200,
       Update (ctx_of True Undefined Undefined None None None None),
       Update (ctx_of True (Num 80) Undefined None None (Some RIGHT) None),
       Update (ctx_of False (Num 80) Undefined None None (Some RIGHT) None)]
      (constructor (defaultProps idle)))) = Num (401 / 4) \<and>
   inflight (projr (run phone
      [Attach, Layout (401 / 4) 200,
       Update (ctx_of True Undefined Undefined None None None None),
       Update (ctx_of True (Num 80) Undefined None None (Some RIGHT) None),
       Update (ctx_of False (Num 80) Undefined None None (Some RIGHT) None)]
      (constructor (defaultProps idle)))) =
     [(1, [Timing TranslateX (Num 500) 280], DismissAnimationFinished)] \<and>
   (500 :: real) < screenWidth phone + 401 / 4"
  by (simp add: sample_defs method_defs)

text \<open>
  Claim C3, amended. On a measured view, each axis that has a resolved direction is animated
  to \<^verbatim>\<open>Math.round\<close> of the signed sum of the screen extent and the view's extent on that
  axis (positive for right and down, negative for left and up); an axis with no resolved
  direction is not animated. With no other animation queued or in flight, these animations
  are the ones in flight once the update is committed. The target is within 1/2 of the
  signed sum, and equal to it when the sum is a whole number: a view 100 wide on a screen
  400 wide, dismissed to the right, goes to 500.
\<close>

theorem animateDismiss_targets:
  assumes "width this = Num w" and "height this = Num h"
  shows "pending (animateDismiss env isRight isDown this) =
           pending this @
           [(generation this,
             (case isRight of
                None \<Rightarrow> []
              | Some b \<Rightarrow>
                  [Timing TranslateX
                     (Num (round_half_up
                        (if b then screenWidth env + w else - (screenWidth env + w)))) 280]) @
             (case isDown of
                None \<Rightarrow> []
              | Some b \<Rightarrow>
                  [Timing TranslateY
                     (Num (round_half_up
                        (if b then screenHeight env + h else - (screenHeight env + h)))) 280]),
             DismissAnimationFinished)] \<and>
         (pending this = [] \<and> inflight this = [] \<and> (isRight \<noteq> None \<or> isDown \<noteq> None) \<longrightarrow>
            inflight (flush_pending (animateDismiss env isRight isDown this)) =
              pending (animateDismiss env isRight isDown this)) \<and>
         (\<forall>b. \<bar>round_half_up (if b then screenWidth env + w else - (screenWidth env + w)) -
                (if b then screenWidth env + w else - (screenWidth env + w))\<bar> \<le> 1 / 2) \<and>
         (\<forall>b. \<bar>round_half_up (if b then screenHeight env + h else - (screenHeight env + h)) -
                (if b then screenHeight env + h else - (screenHeight env + h))\<bar> \<le> 1 / 2) \<and>
         (screenWidth env + w \<in> \<int> \<longrightarrow>
            (\<forall>b. round_half_up (if b then screenWidth env + w else - (screenWidth env + w)) =
                  (if b then screenWidth env + w else - (screenWidth env + w)))) \<and>
         (screenHeight env + h \<in> \<int> \<longrightarrow>
            (\<forall>b. round_half_up (if b then screenHeight env + h else - (screenHeight env + h)) =
                  (if b then screenHeight env + h else - (screenHeight env + h))))"
proof -
  let ?as = "(case isRight of
                None \<Rightarrow> []
              | Some b \<Rightarrow>
                  [Timing TranslateX
                     (Num (round_half_up
                        (if b then screenWidth env + w else - (screenWidth env + w)))) 280]) @
             (case isDown of
                None \<Rightarrow> []
              | Some b \<Rightarrow>
                  [Timing TranslateY
                     (Num (round_half_up
                        (if b then screenHeight env + h else - (screenHeight env + h)))) 280])"
  have a: "pending (animateDismiss env isRight isDown this) =
      pending this @ [(generation this, ?as, DismissAnimationFinished)]"
    using assms
    by (simp add: animateDismiss_def dismiss_target_def Let_def
        DEFAULT_DISMISS_ANIMATION_DURATION_def split: option.split)
  have f: "inflight (flush_pending (animateDismiss env isRight isDown this)) =
      pending (animateDismiss env isRight isDown this)"
    if p: "pending this = []" and i: "inflight this = []" and r: "isRight \<noteq> None \<or> isDown \<noteq> None"
  proof -
    from r have ne: "?as \<noteq> []"
      by (auto split: option.split)
    let ?u = "(animateDismiss env isRight isDown this)\<lparr>pending := []\<rparr>"
    have iu: "inflight ?u = []"
      using i by (simp add: animateDismiss_def Let_def)
    have "flush_pending (animateDismiss env isRight isDown this) =
        start_animation (generation this, ?as, DismissAnimationFinished) ?u"
      using a p by (simp add: flush_pending_def)
    with start_on_idle [of "(generation this, ?as, DismissAnimationFinished)" ?u] ne iu a p
    show ?thesis by simp
  qed
  have i: "round_half_up (if b then r else - r) = (if b then r else - r)" if "r \<in> \<int>" for r b
    using that by (simp add: round_half_up_int)
  from a f round_half_up_near i show ?thesis
    by blast
qed

theorem animateDismiss_targets_witness:
  "width (onLayout 100 200 ((constructor (defaultProps idle))\<lparr>ref_current := True\<rparr>)) = Num 100 \<and>
   height (onLayout 100 200 ((constructor (defaultProps idle))\<lparr>ref_current := True\<rparr>)) = Num 200 \<and>
   pending (onLayout 100 200 ((constructor (defaultProps idle))\<lparr>ref_current := True\<rparr>)) = [] \<and>
   inflight (onLayout 100 200 ((constructor (defaultProps idle))\<lparr>ref_current := True\<rparr>)) = [] \<and>
   screenWidth phone = 400 \<and>
   screenWidth phone + 100 \<in> \<int> \<and>
   inflight (flush_pending (animateDismiss phone (Some True) None
      (onLayout 100 200 ((constructor (defaultProps idle))\<lparr>ref_current := True\<rparr>)))) =
     [(1, [Timing TranslateX (Num 500) 280], DismissAnimationFinished)]"
proof -
  let ?s = "onLayout 100 200 ((constructor (defaultProps idle))\<lparr>ref_current := True\<rparr>)"
  have w: "width ?s = Num 100" and h: "height ?s = Num 200"
    and p: "pending ?s = []" and i: "inflight ?s = []" and g: "generation ?s = 1"
    by (simp_all add: sample_defs method_defs)
  have e: "screenWidth phone = 400" and z: "screenWidth phone + 100 \<in> \<int>"
    by (simp_all add: phone_def)
  from animateDismiss_targets [OF w h, of phone "Some True" None] e p i g
  have "inflight (flush_pending (animateDismiss phone (Some True) None ?s)) =
      [(1, [Timing TranslateX (Num 500) 280], DismissAnimationFinished)]"
    by (simp add: round_half_up_def)
  with w h p i e z show ?thesis by blast
qed

subsection \<open>Release decision\<close>

text \<open>
  Once a swipe was captured on either axis, \<^verbatim>\<open>onPanEnd\<close> queues a dismiss animation whatever
  the offsets and the \<^verbatim>\<open>directions\<close> prop are. With \<^verbatim>\<open>this.swipe\<close> assigned and empty, it
  queues the dismiss animation exactly when one of the four threshold tests of an enabled
  direction holds, and otherwise the settle animation: two springs, to
  \<^verbatim>\<open>Math.round(-this.left)\<close> and \<^verbatim>\<open>Math.round(-this.top)\<close>.
\<close>

lemma onPanEnd_with_swipe_dismisses:
  assumes "swipe this = Some sw" and "present (axis_x sw) \<or> present (axis_y sw)"
  shows "\<exists>this' as. onPanEnd env this = Inr this' \<and> isAnimating this' \<and>
           pending this' = pending this @ [(generation this, as, DismissAnimationFinished)]"
proof -
  let ?s = "this\<lparr>calls := calls this @ [PanEndCall]\<rparr>"
  obtain r d where rd: "getDismissAnimationDirection ?s = (r, d)"
    by (cases "getDismissAnimationDirection ?s")
  with assms have "onPanEnd env this = Inr (animateDismiss env r d ?s)"
    by (simp add: onPanEnd_def Let_def)
  then show ?thesis
    by (simp add: animateDismiss_def Let_def)
qed

lemma settle_animation:
  "pending (animateToInitialPosition this) =
     pending this @
     [(generation this,
       [Spring TranslateX (Math_round (neg (left this)))
          (animationSpeed (animationOptions (props this)))
          (animationBounciness (animationOptions (props this))),
        Spring TranslateY (Math_round (neg (top_y this)))
          (animationSpeed (animationOptions (props this)))
          (animationBounciness (animationOptions (props this)))],
       InitAnimationFinished)]"
proof -
  have "\<not> isUndefined (neg v)" for v
    by (cases v) simp_all
  then show ?thesis
    by (simp add: animateToInitialPosition_def Let_def)
qed

lemma onPanEnd_threshold_decision:
  assumes "swipe this = Some sw" and "axis_x sw = None" and "axis_y sw = None"
  shows "onPanEnd env this =
     Inr (if (LEFT \<in> set (directions (props this)) \<and>
               le_js (Math_round (left this)) (neg (thresholdX this))) \<or>
             (RIGHT \<in> set (directions (props this)) \<and>
               ge_js (Math_round (left this)) (thresholdX this)) \<or>
             (UP \<in> set (directions (props this)) \<and>
               le_js (Math_round (top_y this)) (neg (thresholdY this))) \<or>
             (DOWN \<in> set (directions (props this)) \<and>
               ge_js (Math_round (top_y this)) (thresholdY this))
          then animateDismiss env
                 (fst (getDismissAnimationDirection this))
                 (snd (getDismissAnimationDirection this))
                 (this\<lparr>calls := calls this @ [PanEndCall]\<rparr>)
          else animateToInitialPosition (this\<lparr>calls := calls this @ [PanEndCall]\<rparr>))"
proof -
  have g: "getDismissAnimationDirection (this\<lparr>calls := cs\<rparr>) = getDismissAnimationDirection this"
    for cs
    by (simp add: getDismissAnimationDirection_def)
  from assms show ?thesis
    by (auto simp add: onPanEnd_def Let_def g split: prod.split)
qed

text \<open>
  Claim C2 says that a pan end with no captured swipe either dismisses or settles. The code
  departs from it when \<^verbatim>\<open>this.swipe\<close> was never assigned: the field is set by
  \<^verbatim>\<open>onPanStart\<close> and \<^verbatim>\<open>onSwipe\<close> only, and \<^verbatim>\<open>onPanEnd\<close> reads \<^verbatim>\<open>this.swipe.x\<close> without a
  test. A view that is mounted while the provider is panning sees the release as its first
  change of \<^verbatim>\<open>isPanning\<close>; \<^verbatim>\<open>onPanEnd\<close> then throws a \<^verbatim>\<open>TypeError\<close>, and neither animation
  starts.
\<close>

theorem pan_end_without_pan_start_throws:
  "run phone
     [Attach, Layout 100 200,
      Update (ctx_of False Undefined Undefined None None None None)]
     (constructor (defaultProps (ctx_of True Undefined Undefined None None None None))) =
   Inl TypeError"
  by (simp add: sample_defs method_defs)

text \<open>
  Claim C1 says that a dismissal triggered by a captured swipe goes in the direction of that
  swipe. The code departs from it: \<^verbatim>\<open>onPanEnd\<close> tests the captured \<^verbatim>\<open>this.swipe\<close>, but
  \<^verbatim>\<open>getDismissAnimationDirection\<close> reads the provider's current \<^verbatim>\<open>swipeDirections\<close>, and
  falls back to \<^verbatim>\<open>dragDirections\<close> in the branch its comment reserves for a drag beyond the
  threshold. A swipe to the left, followed by a slow drag of 10 to the right (the provider
  then reports no swipe and a drag to the right) and a release, keeps
  \<^verbatim>\<open>this.swipe = {x: LEFT}\<close> and animates the view to +500, off the right edge.
\<close>

theorem swipe_then_drag_dismisses_against_swipe:
  "\<not> isl (run phone
      [Attach, Layout 100 200,
       Update (ctx_of True Undefined Undefined None None None None),
       Update (ctx_of True Undefined Undefined (Some LEFT) None None None),
       Update (ctx_of True (Num 10) Undefined None None (Some RIGHT) None),
       Update (ctx_of False (Num 10) Undefined None None (Some RIGHT) None)]
      (constructor (defaultProps idle))) \<and>
   swipe (projr (run phone
      [Attach, Layout 100 200,
       Update (ctx_of True Undefined Undefined None None None None),
       Update (ctx_of True Undefined Undefined (Some LEFT) None None None),
       Update (ctx_of True (Num 10) Undefined None None (Some RIGHT) None),
       Update (ctx_of False (Num 10) Undefined None None (Some RIGHT) None)]
      (constructor (defaultProps idle)))) = Some \<lparr>axis_x = Some LEFT, axis_y = None\<rparr> \<and>
   inflight (projr (run phone
      [Attach, Layout 100 200,
       Update (ctx_of True Undefined Undefined None None None None),
       Update (ctx_of True Undefined Undefined (Some LEFT) None None None),
       Update (ctx_of True (Num 10) Undefined None None (Some RIGHT) None),
       Update (ctx_of False (Num 10) Undefined None None (Some RIGHT) None)]
      (constructor (defaultProps idle)))) =
     [(1, [Timing TranslateX (Num 500) 280], DismissAnimationFinished)]"
  by (simp add: sample_defs method_defs)

subsection \<open>Pan start during an animation\<close>

text \<open>
  Claim C8 says that a pan that starts during an animation is suppressed, drag included.
  The code suppresses \<^verbatim>\<open>onPanStart\<close> only: the drag branch of \<^verbatim>\<open>componentDidUpdate\<close> does
  not look at \<open>isAnimating\<close>. A drag of 30 is released and the settle animation starts;
  the next pan arrives with a delta of 40 while that animation is running. In
  \<^verbatim>\<open>componentDidUpdate\<close>, \<^verbatim>\<open>onPanEnd\<close> is entered instead of \<^verbatim>\<open>onPanStart\<close>, and \<^verbatim>\<open>onDrag\<close>
  moves the view from 30 to 40 by direct mutation while \<open>isAnimating\<close> is true and the
  settle animation is in flight. Only afterwards does the queued animation start; it stops
  the settle animation, whose callback resets \<open>isAnimating\<close> and the position.
\<close>

theorem drag_during_animation:
  "isAnimating (projr (run phone
      [Attach, Layout 100 200,
       Update (ctx_of True Undefined Undefined None None None None),
       Update (ctx_of True (Num 30) Undefined None None (Some RIGHT) None),
       Update (ctx_of False (Num 30) Undefined None None (Some RIGHT) None)]
      (constructor (defaultProps idle)))) \<and>
   inflight (projr (run phone
      [Attach, Layout 100 200,
       Update (ctx_of True Undefined Undefined None None None None),
       Update (ctx_of True (Num 30) Undefined None None (Some RIGHT) None),
       Update (ctx_of False (Num 30) Undefined None None (Some RIGHT) None)]
      (constructor (defaultProps idle)))) =
     [(1, [Spring TranslateX (Num (- 30)) 20 6, Spring TranslateY (Num 0) 20 6],
       InitAnimationFinished)] \<and>
   left (projr (run phone
      [Attach, Layout 100 200,
       Update (ctx_of True Undefined Undefined None None None None),
       Update (ctx_of True (Num 30) Undefined None None (Some RIGHT) None),
       Update (ctx_of False (Num 30) Undefined None None (Some RIGHT) None)]
      (constructor (defaultProps idle)))) = Num 30 \<and>
   \<not> isl (componentDidUpdate phone
      (ctx_of False (Num 30) Undefined None None (Some RIGHT) None)
      ((projr (run phone
         [Attach, Layout 100 200,
          Update (ctx_of True Undefined Undefined None None None None),
          Update (ctx_of True (Num 30) Undefined None None (Some RIGHT) None),
          Update (ctx_of False (Num 30) Undefined None None (Some RIGHT) None)]
         (constructor (defaultProps idle))))
       \<lparr>props := (defaultProps (ctx_of True (Num 40) Undefined None None (Some RIGHT) None))\<rparr>)) \<and>
   isAnimating (projr (componentDidUpdate phone
      (ctx_of False (Num 30) Undefined None None (Some RIGHT) None)
      ((projr (run phone
         [Attach, Layout 100 200,
          Update (ctx_of True Undefined Undefined None None None None),
          Update (ctx_of True (Num 30) Undefined None None (Some RIGHT) None),
          Update (ctx_of False (Num 30) Undefined None None (Some RIGHT) None)]
         (constructor (defaultProps idle))))
       \<lparr>props := (defaultProps (ctx_of True (Num 40) Undefined None None (Some RIGHT) None))\<rparr>))) \<and>
   inflight (projr (componentDidUpdate phone
      (ctx_of False (Num 30) Undefined None None (Some RIGHT) None)
      ((projr (run phone
         [Attach, Layout 100 200,
          Update (ctx_of True Undefined Undefined None None None None),
          Update (ctx_of True (Num 30) Undefined None None (Some RIGHT) None),
          Update (ctx_of False (Num 30) Undefined None None (Some RIGHT) None)]
         (constructor (defaultProps idle))))
       \<lparr>props := (defaultProps (ctx_of True (Num 40) Undefined None None (Some RIGHT) None))\<rparr>))) =
     [(1, [Spring TranslateX (Num (- 30)) 20 6, Spring TranslateY (Num 0) 20 6],
       InitAnimationFinished)] \<and>
   left (projr (componentDidUpdate phone
      (ctx_of False (Num 30) Undefined None None (Some RIGHT) None)
      ((projr (run phone
         [Attach, Layout 100 200,
          Update (ctx_of True Undefined Undefined None None None None),
          Update (ctx_of True (Num 30) Undefined None None (Some RIGHT) None),
          Update (ctx_of False (Num 30) Undefined None None (Some RIGHT) None)]
         (constructor (defaultProps idle))))
       \<lparr>props := (defaultProps (ctx_of True (Num 40) Undefined None None (Some RIGHT) None))\<rparr>))) =
     Num 40 \<and>
   calls (projr (componentDidUpdate phone
      (ctx_of False (Num 30) Undefined None None (Some RIGHT) None)
      ((projr (run phone
         [Attach, Layout 100 200,
          Update (ctx_of True Undefined Undefined None None None None),
          Update (ctx_of True (Num 30) Undefined None None (Some RIGHT) None),
          Update (ctx_of False (Num 30) Undefined None None (Some RIGHT) None)]
         (constructor (defaultProps idle))))
       \<lparr>props := (defaultProps (ctx_of True (Num 40) Undefined None None (Some RIGHT) None))\<rparr>))) =
     [PanStartCall, DragCall, PanEndCall, PanEndCall, DragCall] \<and>
   \<not> isl (run phone
      [Attach, Layout 100 200,
       Update (ctx_of True Undefined Undefined None None None None),
       Update (ctx_of True (Num 30) Undefined None None (Some RIGHT) None),
       Update (ctx_of False (Num 30) Undefined None None (Some RIGHT) None),
       Update (ctx_of True (Num 40) Undefined None None (Some RIGHT) None)]
      (constructor (defaultProps idle))) \<and>
   calls (projr (run phone
      [Attach, Layout 100 200,
       Update (ctx_of True Undefined Undefined None None None None),
       Update (ctx_of True (Num 30) Undefined None None (Some RIGHT) None),
       Update (ctx_of False (Num 30) Undefined None None (Some RIGHT) None),
       Update (ctx_of True (Num 40) Undefined None None (Some RIGHT) None)]
      (constructor (defaultProps idle)))) =
     [PanStartCall, DragCall, PanEndCall, PanEndCall, DragCall] \<and>
   isAnimating (projr (run phone
      [Attach, Layout 100 200,
       Update (ctx_of True Undefined Undefined None None None None),
       Update (ctx_of True (Num 30) Undefined None None (Some RIGHT) None),
       Update (ctx_of False (Num 30) Undefined None None (Some RIGHT) None),
       Update (ctx_of True (Num 40) Undefined None None (Some RIGHT) None)]
      (constructor (defaultProps idle)))) = False \<and>
   left (projr (run phone
      [Attach, Layout 100 200,
       Update (ctx_of True Undefined Undefined None None None None),
       Update (ctx_of True (Num 30) Undefined None None (Some RIGHT) None),
       Update (ctx_of False (Num 30) Undefined None None (Some RIGHT) None),
       Update (ctx_of True (Num 40) Undefined None None (Some RIGHT) None)]
      (constructor (defaultProps idle)))) = Num 0"
  by (simp add: sample_defs method_defs)

text \<open>
  Claim C9 says that in every reachable state exactly one of the two positioning mechanisms
  is active, selected by \<open>isAnimating\<close>. The code departs from it, by the same unguarded
  drag branch as for claim C8. A drag of 80 on a view 100 wide is released and the dismiss
  animation starts; the next pan arrives 20 further to the left while it is running. The
  state reached has \<open>isAnimating\<close> true, the transform of the two channels rendered and a
  dismiss animation in flight, and the view has been moved from 80 to 60 by direct
  mutation.
\<close>

theorem drag_during_dismiss_animation:
  "isAnimating (projr (run phone
      [Attach, Layout 100 200,
       Update (ctx_of True Undefined Undefined None None None None),
       Update (ctx_of True (Num 80) Undefined None None (Some RIGHT) None),
       Update (ctx_of False (Num 80) Undefined None None (Some RIGHT) None)]
      (constructor (defaultProps idle)))) \<and>
   left (projr (run phone
      [Attach, Layout 100 200,
       Update (ctx_of True Undefined Undefined None None None None),
       Update (ctx_of True (Num 80) Undefined None None (Some RIGHT) None),
       Update (ctx_of False (Num 80) Undefined None None (Some RIGHT) None)]
      (constructor (defaultProps idle)))) = Num 80 \<and>
   \<not> isl (run phone
      [Attach, Layout 100 200,
       Update (ctx_of True Undefined Undefined None None None None),
       Update (ctx_of True (Num 80) Undefined None None (Some RIGHT) None),
       Update (ctx_of False (Num 80) Undefined None None (Some RIGHT) None),
       Update (ctx_of True (Num 60) Undefined None None (Some RIGHT) None)]
      (constructor (defaultProps idle))) \<and>
   isAnimating (projr (run phone
      [Attach, Layout 100 200,
       Update (ctx_of True Undefined Undefined None None None None),
       Update (ctx_of True (Num 80) Undefined None None (Some RIGHT) None),
       Update (ctx_of False (Num 80) Undefined None None (Some RIGHT) None),
       Update (ctx_of True (Num 60) Undefined None None (Some RIGHT) None)]
      (constructor (defaultProps idle)))) \<and>
   render_transform (projr (run phone
      [Attach, Layout 100 200,
       Update (ctx_of True Undefined Undefined None None None None),
       Update (ctx_of True (Num 80) Undefined None None (Some RIGHT) None),
       Update (ctx_of False (Num 80) Undefined None None (Some RIGHT) None),
       Update (ctx_of True (Num 60) Undefined None None (Some RIGHT) None)]
      (constructor (defaultProps idle)))) = [translateX (Num 0), translateY (Num 0)] \<and>
   inflight (projr (run phone
      [Attach, Layout 100 200,
       Update (ctx_of True Undefined Undefined None None None None),
       Update (ctx_of True (Num 80) Undefined None None (Some RIGHT) None),
       Update (ctx_of False (Num 80) Undefined None None (Some RIGHT) None),
       Update (ctx_of True (Num 60) Undefined None None (Some RIGHT) None)]
      (constructor (defaultProps idle)))) =
     [(1, [Timing TranslateX (Num 500) 280], DismissAnimationFinished)] \<and>
   left (projr (run phone
      [Attach, Layout 100 200,
       Update (ctx_of True Undefined Undefined None None None None),
       Update (ctx_of True (Num 80) Undefined None None (Some RIGHT) None),
       Update (ctx_of False (Num 80) Undefined None None (Some RIGHT) None),
       Update (ctx_of True (Num 60) Undefined None None (Some RIGHT) None)]
      (constructor (defaultProps idle)))) = Num 60 \<and>
   calls (projr (run phone
      [Attach, Layout 100 200,
       Update (ctx_of True Undefined Undefined None None None None),
       Update (ctx_of True (Num 80) Undefined None None (Some RIGHT) None),
       Update (ctx_of False (Num 80) Undefined None None (Some RIGHT) None),
       Update (ctx_of True (Num 60) Undefined None None (Some RIGHT) None)]
      (constructor (defaultProps idle)))) =
     [PanStartCall, DragCall, PanEndCall, PanEndCall, DragCall]"
  by (simp add: sample_defs method_defs render_transform_def)

subsection \<open>Drag tracking\<close>

lemma flush_nothing: "pending this = [] \<Longrightarrow> flush_pending this = this"
  by (simp add: flush_pending_def)

lemma run_append:
  "run env (xs @ ys) this =
     (case run env xs this of Inl err \<Rightarrow> Inl err | Inr this' \<Rightarrow> run env ys this')"
  by (induction xs arbitrary: this) (simp_all split: sum.split)

lemma panning_step:
  assumes "ref_current this" and "isPanning (ctx (props this))" and "isPanning c"
    and "pending this = []"
  shows "\<exists>this'.
     step env (Update c) this = Inr this' \<and> ctx (props this') = c \<and>
     drag_frame this' = drag_frame this \<and>
     ((truthy (delta_x (dragDeltas c)) \<or> truthy (delta_y (dragDeltas c))) \<and>
      (strict_neq (delta_x (dragDeltas c)) (delta_x (dragDeltas (ctx (props this)))) \<or>
       strict_neq (delta_y (dragDeltas c)) (delta_y (dragDeltas (ctx (props this))))) \<longrightarrow>
        left this' =
          (if truthy (delta_x (dragDeltas c)) then Math_round (delta_x (dragDeltas c))
           else originalLeft this) \<and>
        top_y this' =
          (if truthy (delta_y (dragDeltas c)) then Math_round (delta_y (dragDeltas c))
           else originalTop this)) \<and>
     (\<not> ((truthy (delta_x (dragDeltas c)) \<or> truthy (delta_y (dragDeltas c))) \<and>
         (strict_neq (delta_x (dragDeltas c)) (delta_x (dragDeltas (ctx (props this)))) \<or>
          strict_neq (delta_y (dragDeltas c)) (delta_y (dragDeltas (ctx (props this)))))) \<longrightarrow>
        left this' = left this \<and> top_y this' = top_y this)"
proof -
  define u where "u = this\<lparr>props := (props this)\<lparr>ctx := c\<rparr>\<rparr>"
  define gate where "gate \<longleftrightarrow>
      (truthy (delta_x (dragDeltas c)) \<or> truthy (delta_y (dragDeltas c))) \<and>
      (strict_neq (delta_x (dragDeltas c)) (delta_x (dragDeltas (ctx (props this)))) \<or>
       strict_neq (delta_y (dragDeltas c)) (delta_y (dragDeltas (ctx (props this)))))"
  define v where "v = (if gate then onDrag (dragDeltas c) u else u)"
  define sg where "sg \<longleftrightarrow>
      (present (axis_x (swipeDirections c)) \<or> present (axis_y (swipeDirections c))) \<and>
      (axis_x (swipeDirections c) \<noteq> axis_x (swipeDirections (ctx (props this))) \<or>
       axis_y (swipeDirections c) \<noteq> axis_y (swipeDirections (ctx (props this))))"
  define w where "w = (if sg then onSwipe (swipeDirections c) v else v)"
  have cdu: "componentDidUpdate env (ctx (props this)) u = Inr w"
    using assms(2,3) by (simp add: componentDidUpdate_def strict_neq_direction_def Let_def u_def gate_def v_def sg_def w_def)
  have fu: "drag_frame u = drag_frame this" "ctx (props u) = c" "left u = left this"
    "top_y u = top_y this"
    by (simp_all add: u_def drag_frame_def)
  have fv: "drag_frame v = drag_frame u" "ctx (props v) = ctx (props u)"
    by (simp_all add: v_def drag_frame_def onDrag_def setNativeProps_def Let_def)
  have fw: "drag_frame w = drag_frame v" "ctx (props w) = ctx (props v)" "left w = left v"
    "top_y w = top_y v"
    by (simp_all add: w_def drag_frame_def onSwipe_def)
  from fu fv fw assms(4) have "pending w = []"
    by (simp add: drag_frame_def)
  with cdu have st: "step env (Update c) this = Inr w"
    by (simp add: flush_nothing u_def)
  from fu fv fw have fr: "drag_frame w = drag_frame this" "ctx (props w) = c"
    by simp_all
  have drag: "left v =
          (if truthy (delta_x (dragDeltas c)) then Math_round (delta_x (dragDeltas c))
           else originalLeft this)"
      "top_y v =
          (if truthy (delta_y (dragDeltas c)) then Math_round (delta_y (dragDeltas c))
           else originalTop this)" if gate
    using that assms(1) by (simp_all add: v_def u_def onDrag_def setNativeProps_def Let_def)
  have nodrag: "left v = left this" "top_y v = top_y this" if "\<not> gate"
    using that fu by (simp_all add: v_def)
  from st fr fw(3,4) drag nodrag
  have "step env (Update c) this = Inr w \<and> ctx (props w) = c \<and>
     drag_frame w = drag_frame this \<and>
     (gate \<longrightarrow>
        left w =
          (if truthy (delta_x (dragDeltas c)) then Math_round (delta_x (dragDeltas c))
           else originalLeft this) \<and>
        top_y w =
          (if truthy (delta_y (dragDeltas c)) then Math_round (delta_y (dragDeltas c))
           else originalTop this)) \<and>
     (\<not> gate \<longrightarrow> left w = left this \<and> top_y w = top_y this)"
    by simp
  then show ?thesis
    unfolding gate_def by blast
qed


lemma panning_run:
  assumes "ref_current this" and "isPanning (ctx (props this))" and "pending this = []"
    and "\<forall>c \<in> set cs. isPanning c"
  shows "\<exists>mid. run env (map Update cs) this = Inr mid \<and>
           ctx (props mid) = last (ctx (props this) # cs) \<and>
           drag_frame mid = drag_frame this"
  using assms
proof (induction cs arbitrary: this)
  case Nil
  then show ?case by simp
next
  case (Cons c cs)
  from Cons.prems have "isPanning c"
    by simp
  from panning_step [OF Cons.prems(1,2) this Cons.prems(3), of env]
  obtain s where s: "step env (Update c) this = Inr s" "ctx (props s) = c"
    "drag_frame s = drag_frame this"
    by blast
  from s Cons.prems have "ref_current s" "isPanning (ctx (props s))" "pending s = []"
    "\<forall>c \<in> set cs. isPanning c"
    by (simp_all add: drag_frame_def)
  from Cons.IH [OF this] obtain mid where
    "run env (map Update cs) s = Inr mid" "ctx (props mid) = last (ctx (props s) # cs)"
    "drag_frame mid = drag_frame s"
    by blast
  with s show ?case
    by simp
qed

text \<open>
  Claim C6, as stated, fails in three ways. A reported delta of 0 is treated as no delta,
  since \<^verbatim>\<open>onDrag\<close> tests the delta for truthiness: with \<^verbatim>\<open>style.left = 10\<close>, the deltas
  \<^verbatim>\<open>{x: 0, y: 5}\<close> leave the view at left 10, not at the rounded delta 0. A context with no
  delta on either axis does not reach \<^verbatim>\<open>onDrag\<close>: after the deltas \<^verbatim>\<open>{x: 30, y: 7}\<close>, it
  leaves the view at (30, 7), not at its original offset (0, 0). Deltas that are the same as
  in the context before do not reach \<^verbatim>\<open>onDrag\<close> either: when the first layout arrives after
  the deltas \<^verbatim>\<open>{x: 30, y: 7}\<close> and puts the view at its origin, the next context with these
  deltas leaves it at (0, 0).
\<close>

theorem drag_delivery_counterexample:
  "delta_x (dragDeltas (ctx (props (projr (run phone
      [Attach, Layout 100 200,
       Update (ctx_of True Undefined Undefined None None None None),
       Update (ctx_of True (Num 0) (Num 5) None None None (Some DOWN))]
      (constructor ((defaultProps idle)\<lparr>style_left := Some 10\<rparr>))))))) = Num 0 \<and>
   Math_round (Num 0) = Num 0 \<and>
   left (projr (run phone
      [Attach, Layout 100 200,
       Update (ctx_of True Undefined Undefined None None None None),
       Update (ctx_of True (Num 0) (Num 5) None None None (Some DOWN))]
      (constructor ((defaultProps idle)\<lparr>style_left := Some 10\<rparr>)))) = Num 10 \<and>
   top_y (projr (run phone
      [Attach, Layout 100 200,
       Update (ctx_of True Undefined Undefined None None None None),
       Update (ctx_of True (Num 0) (Num 5) None None None (Some DOWN))]
      (constructor ((defaultProps idle)\<lparr>style_left := Some 10\<rparr>)))) = Num 5 \<and>
   dragDeltas (ctx (props (projr (run phone
      [Attach, Layout 100 200,
       Update (ctx_of True Undefined Undefined None None None None),
       Update (ctx_of True (Num 30) (Num 7) None None (Some RIGHT) (Some DOWN)),
       Update (ctx_of True Undefined Undefined None None None None)]
      (constructor (defaultProps idle)))))) = \<lparr>delta_x = Undefined, delta_y = Undefined\<rparr> \<and>
   originalLeft (projr (run phone
      [Attach, Layout 100 200,
       Update (ctx_of True Undefined Undefined None None None None),
       Update (ctx_of True (Num 30) (Num 7) None None (Some RIGHT) (Some DOWN)),
       Update (ctx_of True Undefined Undefined None None None None)]
      (constructor (defaultProps idle)))) = Num 0 \<and>
   originalTop (projr (run phone
      [Attach, Layout 100 200,
       Update (ctx_of True Undefined Undefined None None None None),
       Update (ctx_of True (Num 30) (Num 7) None None (Some RIGHT) (Some DOWN)),
       Update (ctx_of True Undefined Undefined None None None None)]
      (constructor (defaultProps idle)))) = Num 0 \<and>
   left (projr (run phone
      [Attach, Layout 100 200,
       Update (ctx_of True Undefined Undefined None None None None),
       Update (ctx_of True (Num 30) (Num 7) None None (Some RIGHT) (Some DOWN)),
       Update (ctx_of True Undefined Undefined None None None None)]
      (constructor (defaultProps idle)))) = Num 30 \<and>
   top_y (projr (run phone
      [Attach, Layout 100 200,
       Update (ctx_of True Undefined Undefined None None None None),
       Update (ctx_of True (Num 30) (Num 7) None None (Some RIGHT) (Some DOWN)),
       Update (ctx_of True Undefined Undefined None None None None)]
      (constructor (defaultProps idle)))) = Num 7 \<and>
   dragDeltas (ctx (props (projr (run phone
      [Attach,
       Update (ctx_of True Undefined Undefined None None None None),
       Update (ctx_of True (Num 30) (Num 7) None None (Some RIGHT) (Some DOWN)),
       Layout 100 200,
       Update (ctx_of True (Num 30) (Num 7) None None (Some RIGHT) None)]
      (constructor (defaultProps idle)))))) = \<lparr>delta_x = Num 30, delta_y = Num 7\<rparr> \<and>
   left (projr (run phone
      [Attach,
       Update (ctx_of True Undefined Undefined None None None None),
       Update (ctx_of True (Num 30) (Num 7) None None (Some RIGHT) (Some DOWN)),
       Layout 100 200,
       Update (ctx_of True (Num 30) (Num 7) None None (Some RIGHT) None)]
      (constructor (defaultProps idle)))) = Num 0 \<and>
   top_y (projr (run phone
      [Attach,
       Update (ctx_of True Undefined Undefined None None None None),
       Update (ctx_of True (Num 30) (Num 7) None None (Some RIGHT) (Some DOWN)),
       Layout 100 200,
       Update (ctx_of True (Num 30) (Num 7) None None (Some RIGHT) None)]
      (constructor (defaultProps idle)))) = Num 0"
  by (simp add: sample_defs method_defs)

text \<open>
  Claim C6, amended. Take an attached view, a context that is panning and nothing queued,
  and deliver any sequence of contexts that are panning. The last of them moves the view
  only if one of its two deltas is a number other than 0 and its deltas differ from those
  of the context before it: then the offset of each axis, independently of the other
  axis, is \<^verbatim>\<open>Math.round\<close> of the delta of that axis when this delta is a number other than
  0, and the original offset when it is absent, \<^verbatim>\<open>NaN\<close> or 0. Otherwise the offsets stay
  as the contexts before it left them. The whole sequence leaves the animation channels,
  \<open>isAnimating\<close> and the animations in flight as they were.
\<close>

theorem drag_updates_offsets:
  assumes "ref_current this" and "isPanning (ctx (props this))" and "pending this = []"
    and "\<forall>c \<in> set cs. isPanning c" and "isPanning c"
  shows "\<exists>mid this'.
     run env (map Update cs) this = Inr mid \<and>
     run env (map Update (cs @ [c])) this = Inr this' \<and>
     ctx (props mid) = last (ctx (props this) # cs) \<and>
     ((truthy (delta_x (dragDeltas c)) \<or> truthy (delta_y (dragDeltas c))) \<and>
      (strict_neq (delta_x (dragDeltas c)) (delta_x (dragDeltas (ctx (props mid)))) \<or>
       strict_neq (delta_y (dragDeltas c)) (delta_y (dragDeltas (ctx (props mid))))) \<longrightarrow>
        (\<forall>r. delta_x (dragDeltas c) = Num r \<and> r \<noteq> 0 \<longrightarrow>
           left this' = Num (round_half_up r)) \<and>
        (delta_x (dragDeltas c) \<in> {Undefined, NaN, Num 0} \<longrightarrow>
           left this' = originalLeft this) \<and>
        (\<forall>r. delta_y (dragDeltas c) = Num r \<and> r \<noteq> 0 \<longrightarrow>
           top_y this' = Num (round_half_up r)) \<and>
        (delta_y (dragDeltas c) \<in> {Undefined, NaN, Num 0} \<longrightarrow>
           top_y this' = originalTop this)) \<and>
     (\<not> ((truthy (delta_x (dragDeltas c)) \<or> truthy (delta_y (dragDeltas c))) \<and>
         (strict_neq (delta_x (dragDeltas c)) (delta_x (dragDeltas (ctx (props mid)))) \<or>
          strict_neq (delta_y (dragDeltas c)) (delta_y (dragDeltas (ctx (props mid)))))) \<longrightarrow>
        left this' = left mid \<and> top_y this' = top_y mid) \<and>
     animTranslateX this' = animTranslateX this \<and>
     animTranslateY this' = animTranslateY this \<and>
     generation this' = generation this \<and>
     isAnimating this' = isAnimating this \<and>
     inflight this' = inflight this \<and>
     pending this' = []"
proof -
  from panning_run [OF assms(1-4), of env] obtain mid where
    mid: "run env (map Update cs) this = Inr mid"
      "ctx (props mid) = last (ctx (props this) # cs)"
      "drag_frame mid = drag_frame this"
    by blast
  from assms(2,4) have "isPanning (last (ctx (props this) # cs))"
    by (cases cs rule: rev_cases) simp_all
  with mid assms have pre: "ref_current mid" "isPanning (ctx (props mid))" "pending mid = []"
    "originalLeft mid = originalLeft this" "originalTop mid = originalTop this"
    by (simp_all add: drag_frame_def)
  define gate where "gate \<longleftrightarrow>
      (truthy (delta_x (dragDeltas c)) \<or> truthy (delta_y (dragDeltas c))) \<and>
      (strict_neq (delta_x (dragDeltas c)) (delta_x (dragDeltas (ctx (props mid)))) \<or>
       strict_neq (delta_y (dragDeltas c)) (delta_y (dragDeltas (ctx (props mid)))))"
  from panning_step [OF pre(1,2) assms(5) pre(3), of env] obtain this' where
    st: "step env (Update c) mid = Inr this'" and
    fr: "drag_frame this' = drag_frame mid" and
    dr: "gate \<Longrightarrow> left this' =
          (if truthy (delta_x (dragDeltas c)) then Math_round (delta_x (dragDeltas c))
           else originalLeft mid)"
        "gate \<Longrightarrow> top_y this' =
          (if truthy (delta_y (dragDeltas c)) then Math_round (delta_y (dragDeltas c))
           else originalTop mid)" and
    nd: "\<not> gate \<Longrightarrow> left this' = left mid" "\<not> gate \<Longrightarrow> top_y this' = top_y mid"
    unfolding gate_def by blast
  from mid(1) st have run: "run env (map Update (cs @ [c])) this = Inr this'"
    by (simp add: run_append)
  have axis: "(\<forall>r. d = Num r \<and> r \<noteq> 0 \<longrightarrow> p = Num (round_half_up r)) \<and>
      (d \<in> {Undefined, NaN, Num 0} \<longrightarrow> p = orig)"
    if "p = (if truthy d then Math_round d else orig)" for d p orig
    using that by (cases d) auto
  from dr pre(4,5) have on:
    "gate \<Longrightarrow> (\<forall>r. delta_x (dragDeltas c) = Num r \<and> r \<noteq> 0 \<longrightarrow>
           left this' = Num (round_half_up r)) \<and>
        (delta_x (dragDeltas c) \<in> {Undefined, NaN, Num 0} \<longrightarrow>
           left this' = originalLeft this)"
    "gate \<Longrightarrow> (\<forall>r. delta_y (dragDeltas c) = Num r \<and> r \<noteq> 0 \<longrightarrow>
           top_y this' = Num (round_half_up r)) \<and>
        (delta_y (dragDeltas c) \<in> {Undefined, NaN, Num 0} \<longrightarrow>
           top_y this' = originalTop this)"
    using axis [of "left this'" "delta_x (dragDeltas c)" "originalLeft this"]
      axis [of "top_y this'" "delta_y (dragDeltas c)" "originalTop this"]
    by simp_all
  from fr mid(3) assms(3) have frame:
    "animTranslateX this' = animTranslateX this" "animTranslateY this' = animTranslateY this"
    "generation this' = generation this" "isAnimating this' = isAnimating this"
    "inflight this' = inflight this" "pending this' = []"
    by (simp_all add: drag_frame_def)
  from mid(1,2) run on nd frame
  have "run env (map Update cs) this = Inr mid \<and>
     run env (map Update (cs @ [c])) this = Inr this' \<and>
     ctx (props mid) = last (ctx (props this) # cs) \<and>
     (gate \<longrightarrow>
        (\<forall>r. delta_x (dragDeltas c) = Num r \<and> r \<noteq> 0 \<longrightarrow>
           left this' = Num (round_half_up r)) \<and>
        (delta_x (dragDeltas c) \<in> {Undefined, NaN, Num 0} \<longrightarrow>
           left this' = originalLeft this) \<and>
        (\<forall>r. delta_y (dragDeltas c) = Num r \<and> r \<noteq> 0 \<longrightarrow>
           top_y this' = Num (round_half_up r)) \<and>
        (delta_y (dragDeltas c) \<in> {Undefined, NaN, Num 0} \<longrightarrow>
           top_y this' = originalTop this)) \<and>
     (\<not> gate \<longrightarrow> left this' = left mid \<and> top_y this' = top_y mid) \<and>
     animTranslateX this' = animTranslateX this \<and>
     animTranslateY this' = animTranslateY this \<and>
     generation this' = generation this \<and>
     isAnimating this' = isAnimating this \<and>
     inflight this' = inflight this \<and>
     pending this' = []"
    by blast
  then show ?thesis
    unfolding gate_def by blast
qed


theorem drag_updates_offsets_witness:
  "ref_current (projr (run phone
      [Attach, Layout 100 200, Update (ctx_of True Undefined Undefined None None None None)]
      (constructor ((defaultProps idle)\<lparr>style_left := Some 10\<rparr>)))) \<and>
   isPanning (ctx (props (projr (run phone
      [Attach, Layout 100 200, Update (ctx_of True Undefined Undefined None None None None)]
      (constructor ((defaultProps idle)\<lparr>style_left := Some 10\<rparr>)))))) \<and>
   pending (projr (run phone
      [Attach, Layout 100 200, Update (ctx_of True Undefined Undefined None None None None)]
      (constructor ((defaultProps idle)\<lparr>style_left := Some 10\<rparr>)))) = [] \<and>
   left (projr (run phone
      (map Update
        [ctx_of True (Num 3) (Num 4) None None None None,
         ctx_of True (Num (- 5 / 2)) Undefined None None None None])
      (projr (run phone
        [Attach, Layout 100 200, Update (ctx_of True Undefined Undefined None None None None)]
        (constructor ((defaultProps idle)\<lparr>style_left := Some 10\<rparr>)))))) = Num (- 2) \<and>
   top_y (projr (run phone
      (map Update
        [ctx_of True (Num 3) (Num 4) None None None None,
         ctx_of True (Num (- 5 / 2)) Undefined None None None None])
      (projr (run phone
        [Attach, Layout 100 200, Update (ctx_of True Undefined Undefined None None None None)]
        (constructor ((defaultProps idle)\<lparr>style_left := Some 10\<rparr>)))))) = Num 0 \<and>
   left (projr (run phone
      (map Update
        [ctx_of True (Num 3) (Num 4) None None None None,
         ctx_of True Undefined Undefined None None None None])
      (projr (run phone
        [Attach, Layout 100 200, Update (ctx_of True Undefined Undefined None None None None)]
        (constructor ((defaultProps idle)\<lparr>style_left := Some 10\<rparr>)))))) = Num 3 \<and>
   top_y (projr (run phone
      (map Update
        [ctx_of True (Num 3) (Num 4) None None None None,
         ctx_of True Undefined Undefined None None None None])
      (projr (run phone
        [Attach, Layout 100 200, Update (ctx_of True Undefined Undefined None None None None)]
        (constructor ((defaultProps idle)\<lparr>style_left := Some 10\<rparr>)))))) = Num 4"
proof -
  define S where "S = projr (run phone
      [Attach, Layout 100 200, Update (ctx_of True Undefined Undefined None None None None)]
      (constructor ((defaultProps idle)\<lparr>style_left := Some 10\<rparr>)))"
  let ?a = "ctx_of True (Num 3) (Num 4) None None None None"
  let ?b = "ctx_of True (Num (- 5 / 2)) Undefined None None None None"
  let ?e = "ctx_of True Undefined Undefined None None None None"
  have r: "ref_current S" and p: "isPanning (ctx (props S))" and q: "pending S = []"
    by (simp_all add: S_def sample_defs method_defs)
  have o: "originalLeft S = Num 10" "originalTop S = Num 0"
    by (simp_all add: S_def sample_defs method_defs)
  have pa: "\<forall>c \<in> set [?a]. isPanning c" and pb: "isPanning ?b" and pe: "isPanning ?e"
    by (simp_all add: ctx_of_def)
  have v: "left (projr (run phone (map Update [?a]) S)) = Num 3"
    "top_y (projr (run phone (map Update [?a]) S)) = Num 4"
    by (simp_all add: S_def sample_defs method_defs)
  from drag_updates_offsets [OF r p q pa pb, of phone] o
  have b: "left (projr (run phone (map Update [?a, ?b]) S)) = Num (- 2) \<and>
      top_y (projr (run phone (map Update [?a, ?b]) S)) = Num 0"
    by (auto simp add: ctx_of_def round_half_up_def)
  from drag_updates_offsets [OF r p q pa pe, of phone] v
  have e: "left (projr (run phone (map Update [?a, ?e]) S)) = Num 3 \<and>
      top_y (projr (run phone (map Update [?a, ?e]) S)) = Num 4"
    by (auto simp add: ctx_of_def)
  from r p q b e show ?thesis
    unfolding S_def by (simp only: simp_thms)
qed

subsection \<open>The animating flag\<close>

lemma isAnimating_reach_targets: "isAnimating (fold reach_target as this) = isAnimating this"
proof (rule fold_frame)
  fix a s
  show "isAnimating (reach_target a s) = isAnimating s"
    by (cases "(a, s)" rule: reach_target.cases) simp_all
qed

lemma neg_defined: "isUndefined (neg v) = False"
  by (cases v) simp_all

lemma onPanEnd_effect:
  assumes "onPanEnd env this = Inr this'"
  shows "isAnimating this'" and "calls this' = calls this @ [PanEndCall]"
    and "inflight this' = inflight this"
    and "\<exists>as cb. pending this' = pending this @ [(generation this, as, cb)] \<and>
           (cb = InitAnimationFinished \<longrightarrow> as \<noteq> [])"
  using onPanEnd_cases [OF assms]
  by (auto simp add: animateDismiss_def animateToInitialPosition_def neg_defined Let_def)

lemma handler_effects:
  "isAnimating (onPanStart this) = isAnimating this"
  "isAnimating (onDrag d this) = isAnimating this"
  "isAnimating (onSwipe sd this) = isAnimating this"
  "calls (onPanStart this) = calls this @ [PanStartCall]"
  "calls (onDrag d this) = calls this @ [DragCall]"
  "calls (onSwipe sd this) = calls this @ [SwipeCall]"
  "inflight (onPanStart this) = inflight this"
  "inflight (onDrag d this) = inflight this"
  "inflight (onSwipe sd this) = inflight this"
  "pending (onPanStart this) = pending this"
  "pending (onDrag d this) = pending this"
  "pending (onSwipe sd this) = pending this"
  "generation (onPanStart this) = generation this"
  "generation (onDrag d this) = generation this"
  "generation (onSwipe sd this) = generation this"
  by (simp_all add: onPanStart_def onDrag_def onSwipe_def setNativeProps_def Let_def)

lemma componentDidUpdate_effect:
  assumes "componentDidUpdate env prev this = Inr this'" and "isAnimating this"
  shows "isAnimating this'" and "inflight this' = inflight this"
    and "pending this' = pending this \<or>
         (isPanning (ctx (props this)) \<noteq> isPanning prev \<and>
          (\<exists>as cb. pending this' = pending this @ [(generation this, as, cb)] \<and>
             (cb = InitAnimationFinished \<longrightarrow> as \<noteq> [])))"
proof -
  from assms(1) obtain this1 this2 where
    a: "this1 = this \<or> this1 = onPanStart this \<or> onPanEnd env this = Inr this1" and
    b: "this2 = this1 \<or> this2 = onDrag (dragDeltas (ctx (props this))) this1" and
    c: "this' = this2 \<or> this' = onSwipe (swipeDirections (ctx (props this))) this2"
    by (rule componentDidUpdate_cases)
  have same: "isPanning (ctx (props this)) = isPanning prev \<Longrightarrow>
      componentDidUpdate env prev this = Inr this' \<Longrightarrow> pending this' = pending this"
    by (auto simp add: componentDidUpdate_def strict_neq_direction_def Let_def handler_effects)
  from a assms(2) have a1: "isAnimating this1" "inflight this1 = inflight this"
    "pending this1 = pending this \<or>
       (\<exists>as cb. pending this1 = pending this @ [(generation this, as, cb)] \<and>
          (cb = InitAnimationFinished \<longrightarrow> as \<noteq> []))"
    using onPanEnd_effect [of env this this1]
    by (auto simp: handler_effects)
  from b have b1: "isAnimating this2 = isAnimating this1" "inflight this2 = inflight this1"
    "pending this2 = pending this1"
    by (auto simp: handler_effects)
  from c have c1: "isAnimating this' = isAnimating this2" "inflight this' = inflight this2"
    "pending this' = pending this2"
    by (auto simp: handler_effects)
  from a1 b1 c1 show "isAnimating this'" "inflight this' = inflight this"
    by simp_all
  from a1(3) b1(3) c1(3) same [OF _ assms(1)]
  show "pending this' = pending this \<or>
         (isPanning (ctx (props this)) \<noteq> isPanning prev \<and>
          (\<exists>as cb. pending this' = pending this @ [(generation this, as, cb)] \<and>
             (cb = InitAnimationFinished \<longrightarrow> as \<noteq> [])))"
    by (cases "isPanning (ctx (props this)) = isPanning prev") auto
qed

lemma stopped_dismissals:
  "\<forall>a \<in> set xs. snd (snd a) = DismissAnimationFinished \<Longrightarrow>
   fold (\<lambda>a. run_callback (snd (snd a)) False) xs this = this"
  by (induction xs arbitrary: this)
    (simp_all add: run_callback_def onDismissAnimationFinished_def)

lemma start_keeps_animating:
  assumes "isAnimating this" and "\<not> isAnimating (start_animation s this)"
    and "snd (snd s) = InitAnimationFinished \<longrightarrow> fst (snd s) \<noteq> []"
  shows "\<exists>as. (fst s, as, InitAnimationFinished) \<in> set (inflight this)"
proof (rule ccontr)
  assume no: "\<not> (\<exists>as. (fst s, as, InitAnimationFinished) \<in> set (inflight this))"
  show False
  proof (cases "fst (snd s) = []")
    case True
    with assms(3) have "snd (snd s) = DismissAnimationFinished"
      by (cases "snd (snd s)") simp_all
    with True assms(1,2) show False
      by (simp add: start_animation_def run_callback_def onDismissAnimationFinished_def
          onDismiss_method_def split: if_splits)
  next
    case False
    have "snd (snd a) = DismissAnimationFinished"
      if "a \<in> set (filter (overlaps s) (inflight this))" for a
    proof (cases "snd (snd a)")
      case DismissAnimationFinished
      then show ?thesis .
    next
      case InitAnimationFinished
      from that have "a \<in> set (inflight this)" and "fst a = fst s"
        by (auto simp add: overlaps_def)
      with InitAnimationFinished have "(fst s, fst (snd a), InitAnimationFinished) \<in> set (inflight this)"
        by (metis prod.collapse)
      with no show ?thesis by blast
    qed
    then have "fold (\<lambda>a. run_callback (snd (snd a)) False) (filter (overlaps s) (inflight this))
        (this\<lparr>inflight := filter (\<lambda>a. \<not> overlaps s a) (inflight this)\<rparr>) =
        this\<lparr>inflight := filter (\<lambda>a. \<not> overlaps s a) (inflight this)\<rparr>"
      by (intro stopped_dismissals) blast
    with False assms(1,2) show False
      by (simp add: start_animation_def Let_def)
  qed
qed

lemma pan_start_while_animating:
  assumes "componentDidUpdate env prev this = Inr this'"
    and "isAnimating this" and "isPanning (ctx (props this))" and "\<not> isPanning prev"
  shows "count_list (calls this') PanStartCall = count_list (calls this) PanStartCall \<and>
         count_list (calls this') PanEndCall = count_list (calls this) PanEndCall + 1"
proof -
  from assms obtain this1 where e: "onPanEnd env this = Inr this1"
    unfolding componentDidUpdate_def strict_neq_direction_def Let_def by (auto split: sum.splits)
  let ?this2 = "if truthy (delta_x (dragDeltas (ctx (props this)))) \<or>
                   truthy (delta_y (dragDeltas (ctx (props this)))) then
                  (if strict_neq (delta_x (dragDeltas (ctx (props this)))) (delta_x (dragDeltas prev)) \<or>
                      strict_neq (delta_y (dragDeltas (ctx (props this)))) (delta_y (dragDeltas prev))
                   then onDrag (dragDeltas (ctx (props this))) this1 else this1)
                else this1"
  have c2: "count_list (calls ?this2) PanStartCall = count_list (calls this1) PanStartCall \<and>
            count_list (calls ?this2) PanEndCall = count_list (calls this1) PanEndCall"
    by (simp add: handler_effects)
  from assms e have "this' = ?this2 \<or> this' = onSwipe (swipeDirections (ctx (props this))) ?this2"
    unfolding componentDidUpdate_def strict_neq_direction_def Let_def by (auto split: if_splits)
  then have "count_list (calls this') PanStartCall = count_list (calls this1) PanStartCall \<and>
             count_list (calls this') PanEndCall = count_list (calls this1) PanEndCall"
    using c2 by (auto simp add: handler_effects)
  with onPanEnd_effect(2) [OF e] show ?thesis
    by simp
qed

lemma calls_run_callback:
  "count_list (calls (run_callback cb finished this)) PanStartCall =
     count_list (calls this) PanStartCall"
  "count_list (calls (run_callback cb finished this)) PanEndCall =
     count_list (calls this) PanEndCall"
  by (simp_all add: run_callback_def onInitAnimationFinished_def initPositions_def
      setNativeProps_def onDismissAnimationFinished_def onDismiss_method_def
      split: completion.split)

lemma calls_start_animation:
  "count_list (calls (start_animation s this)) PanStartCall =
     count_list (calls this) PanStartCall"
  "count_list (calls (start_animation s this)) PanEndCall =
     count_list (calls this) PanEndCall"
proof -
  have a: "count_list (calls (fold (\<lambda>a. run_callback (snd (snd a)) False) xs u)) PanStartCall =
      count_list (calls u) PanStartCall" for xs u
    using fold_frame [where q = "\<lambda>s. count_list (calls s) PanStartCall"
        and f = "\<lambda>a. run_callback (snd (snd a)) False"]
    by (simp add: calls_run_callback)
  have b: "count_list (calls (fold (\<lambda>a. run_callback (snd (snd a)) False) xs u)) PanEndCall =
      count_list (calls u) PanEndCall" for xs u
    using fold_frame [where q = "\<lambda>s. count_list (calls s) PanEndCall"
        and f = "\<lambda>a. run_callback (snd (snd a)) False"]
    by (simp add: calls_run_callback)
  show "count_list (calls (start_animation s this)) PanStartCall =
     count_list (calls this) PanStartCall"
    "count_list (calls (start_animation s this)) PanEndCall =
     count_list (calls this) PanEndCall"
    by (simp_all add: start_animation_def Let_def a b calls_run_callback)
qed

lemma calls_flush_pending:
  "count_list (calls (flush_pending this)) PanStartCall = count_list (calls this) PanStartCall"
  "count_list (calls (flush_pending this)) PanEndCall = count_list (calls this) PanEndCall"
proof -
  have a: "count_list (calls (fold start_animation xs u)) PanStartCall =
      count_list (calls u) PanStartCall" for xs u
    using fold_frame [where q = "\<lambda>s. count_list (calls s) PanStartCall" and f = start_animation]
    by (simp add: calls_start_animation)
  have b: "count_list (calls (fold start_animation xs u)) PanEndCall =
      count_list (calls u) PanEndCall" for xs u
    using fold_frame [where q = "\<lambda>s. count_list (calls s) PanEndCall" and f = start_animation]
    by (simp add: calls_start_animation)
  show "count_list (calls (flush_pending this)) PanStartCall = count_list (calls this) PanStartCall"
    "count_list (calls (flush_pending this)) PanEndCall = count_list (calls this) PanEndCall"
    by (simp_all add: flush_pending_def a b)
qed


text \<open>
  Claim C10, as stated, fails: \<open>isAnimating\<close> does not stay true for ever after a completed
  dismissal. A drag of 80 on a view 100 wide is released and the dismiss animation runs to
  completion, with nothing left in flight. The next pan start is routed to \<^verbatim>\<open>onPanEnd\<close>,
  which dismisses again, but the drag back to 5 is applied, so the release after it finds
  an offset below the threshold and starts the settle animation, whose completion resets
  \<open>isAnimating\<close>. The pan after that enters \<^verbatim>\<open>onPanStart\<close> and its drag is tracked.
\<close>

theorem isAnimating_reset_after_dismiss_counterexample:
  "\<not> isl (run phone
      [Attach, Layout 100 200,
       Update (ctx_of True Undefined Undefined None None None None),
       Update (ctx_of True (Num 80) Undefined None None (Some RIGHT) None),
       Update (ctx_of False (Num 80) Undefined None None (Some RIGHT) None),
       AnimationEnd 0 True,
       Update (ctx_of True (Num 80) Undefined None None (Some RIGHT) None),
       AnimationEnd 0 True,
       Update (ctx_of True (Num 5) Undefined None None (Some LEFT) None),
       Update (ctx_of False (Num 5) Undefined None None (Some LEFT) None),
       AnimationEnd 0 True,
       Update (ctx_of True (Num 5) Undefined None None (Some LEFT) None),
       Update (ctx_of True (Num 20) Undefined None None (Some RIGHT) None)]
      (constructor ((defaultProps idle)\<lparr>onDismiss := True\<rparr>))) \<and>
   isAnimating (projr (run phone
      [Attach, Layout 100 200,
       Update (ctx_of True Undefined Undefined None None None None),
       Update (ctx_of True (Num 80) Undefined None None (Some RIGHT) None),
       Update (ctx_of False (Num 80) Undefined None None (Some RIGHT) None),
       AnimationEnd 0 True]
      (constructor ((defaultProps idle)\<lparr>onDismiss := True\<rparr>)))) \<and>
   inflight (projr (run phone
      [Attach, Layout 100 200,
       Update (ctx_of True Undefined Undefined None None None None),
       Update (ctx_of True (Num 80) Undefined None None (Some RIGHT) None),
       Update (ctx_of False (Num 80) Undefined None None (Some RIGHT) None),
       AnimationEnd 0 True]
      (constructor ((defaultProps idle)\<lparr>onDismiss := True\<rparr>)))) = [] \<and>
   isAnimating (projr (run phone
      [Attach, Layout 100 200,
       Update (ctx_of True Undefined Undefined None None None None),
       Update (ctx_of True (Num 80) Undefined None None (Some RIGHT) None),
       Update (ctx_of False (Num 80) Undefined None None (Some RIGHT) None),
       AnimationEnd 0 True,
       Update (ctx_of True (Num 80) Undefined None None (Some RIGHT) None),
       AnimationEnd 0 True,
       Update (ctx_of True (Num 5) Undefined None None (Some LEFT) None),
       Update (ctx_of False (Num 5) Undefined None None (Some LEFT) None),
       AnimationEnd 0 True,
       Update (ctx_of True (Num 5) Undefined None None (Some LEFT) None),
       Update (ctx_of True (Num 20) Undefined None None (Some RIGHT) None)]
      (constructor ((defaultProps idle)\<lparr>onDismiss := True\<rparr>)))) = False \<and>
   calls (projr (run phone
      [Attach, Layout 100 200,
       Update (ctx_of True Undefined Undefined None None None None),
       Update (ctx_of True (Num 80) Undefined None None (Some RIGHT) None),
       Update (ctx_of False (Num 80) Undefined None None (Some RIGHT) None),
       AnimationEnd 0 True,
       Update (ctx_of True (Num 80) Undefined None None (Some RIGHT) None),
       AnimationEnd 0 True,
       Update (ctx_of True (Num 5) Undefined None None (Some LEFT) None),
       Update (ctx_of False (Num 5) Undefined None None (Some LEFT) None),
       AnimationEnd 0 True,
       Update (ctx_of True (Num 5) Undefined None None (Some LEFT) None),
       Update (ctx_of True (Num 20) Undefined None None (Some RIGHT) None)]
      (constructor ((defaultProps idle)\<lparr>onDismiss := True\<rparr>)))) =
     [PanStartCall, DragCall, PanEndCall, DismissCallback, PanEndCall, DismissCallback,
      DragCall, PanEndCall, PanStartCall, DragCall] \<and>
   left (projr (run phone
      [Attach, Layout 100 200,
       Update (ctx_of True Undefined Undefined None None None None),
       Update (ctx_of True (Num 80) Undefined None None (Some RIGHT) None),
       Update (ctx_of False (Num 80) Undefined None None (Some RIGHT) None),
       AnimationEnd 0 True,
       Update (ctx_of True (Num 80) Undefined None None (Some RIGHT) None),
       AnimationEnd 0 True,
       Update (ctx_of True (Num 5) Undefined None None (Some LEFT) None),
       Update (ctx_of False (Num 5) Undefined None None (Some LEFT) None),
       AnimationEnd 0 True,
       Update (ctx_of True (Num 5) Undefined None None (Some LEFT) None),
       Update (ctx_of True (Num 20) Undefined None None (Some RIGHT) None)]
      (constructor ((defaultProps idle)\<lparr>onDismiss := True\<rparr>)))) = Num 20"
  by (simp add: sample_defs method_defs)

text \<open>
  Claim C10, amended. The completion handler of the dismiss animation leaves \<open>isAnimating\<close>
  as it is, and so does the report of the end of a dismiss animation. In a state with
  nothing queued, an event turns \<open>isAnimating\<close> from true to false only through the
  callback of a settle animation that was in flight: either the runtime reports the end of
  that animation, or an update in which \<^verbatim>\<open>isPanning\<close> changes starts an animation on the
  same channels and so stops it. For as long as \<open>isAnimating\<close> is true, a pan start is
  routed to \<^verbatim>\<open>onPanEnd\<close> and \<^verbatim>\<open>onPanStart\<close> is not entered.
\<close>

theorem isAnimating_reset_only_by_settle:
  "isAnimating (onDismissAnimationFinished finished this) = isAnimating this \<and>
   (\<forall>k g as. k < length (inflight this) \<and> inflight this ! k = (g, as, DismissAnimationFinished) \<longrightarrow>
      isAnimating (animation_end k finished this) = isAnimating this) \<and>
   (\<forall>e this'. pending this = [] \<and> step env e this = Inr this' \<and>
      isAnimating this \<and> \<not> isAnimating this' \<longrightarrow>
      (\<exists>k fin g as. e = AnimationEnd k fin \<and> k < length (inflight this) \<and>
         inflight this ! k = (g, as, InitAnimationFinished)) \<or>
      (\<exists>c as. e = Update c \<and> isPanning c \<noteq> isPanning (ctx (props this)) \<and>
         (generation this, as, InitAnimationFinished) \<in> set (inflight this))) \<and>
   (\<forall>c this'. isAnimating this \<and> isPanning c \<and> \<not> isPanning (ctx (props this)) \<and>
      step env (Update c) this = Inr this' \<longrightarrow>
      count_list (calls this') PanStartCall = count_list (calls this) PanStartCall \<and>
      count_list (calls this') PanEndCall = count_list (calls this) PanEndCall + 1)"
proof -
  have a: "isAnimating (onDismissAnimationFinished finished this) = isAnimating this"
    by (simp add: onDismissAnimationFinished_def onDismiss_method_def)
  have b: "isAnimating (animation_end k finished this) = isAnimating this"
    if "k < length (inflight this)" and "inflight this ! k = (g, as, DismissAnimationFinished)"
    for k g as
    using that
    by (simp add: animation_end_def Let_def run_callback_def onDismissAnimationFinished_def
        onDismiss_method_def isAnimating_reach_targets)
  have c: "(\<exists>k fin g as. e = AnimationEnd k fin \<and> k < length (inflight this) \<and>
         inflight this ! k = (g, as, InitAnimationFinished)) \<or>
      (\<exists>c as. e = Update c \<and> isPanning c \<noteq> isPanning (ctx (props this)) \<and>
         (generation this, as, InitAnimationFinished) \<in> set (inflight this))"
    if p: "pending this = []" and s: "step env e this = Inr this'"
      and t: "isAnimating this" and f: "\<not> isAnimating this'"
    for e this'
  proof (cases e)
    case Attach
    with s t f show ?thesis by auto
  next
    case (Layout w h)
    with s t f show ?thesis
      by (auto simp add: onLayout_def initPositions_def setNativeProps_def split: if_splits)
  next
    case (Update c)
    let ?u = "this\<lparr>props := (props this)\<lparr>ctx := c\<rparr>\<rparr>"
    from s Update obtain v where
      v: "componentDidUpdate env (ctx (props this)) ?u = Inr v" and fl: "this' = flush_pending v"
      by (auto split: sum.splits)
    from t have tu: "isAnimating ?u"
      by simp
    note eff = componentDidUpdate_effect [OF v tu]
    from eff(3) p have "pending v = [] \<or>
        (isPanning c \<noteq> isPanning (ctx (props this)) \<and>
          (\<exists>as cb. pending v = [(generation this, as, cb)] \<and>
             (cb = InitAnimationFinished \<longrightarrow> as \<noteq> [])))"
      by simp
    then show ?thesis
    proof
      assume "pending v = []"
      then have "this' = v"
        using fl by (simp add: flush_nothing)
      with eff(1) f show ?thesis by simp
    next
      assume "isPanning c \<noteq> isPanning (ctx (props this)) \<and>
          (\<exists>as cb. pending v = [(generation this, as, cb)] \<and>
             (cb = InitAnimationFinished \<longrightarrow> as \<noteq> []))"
      then obtain as cb where ch: "isPanning c \<noteq> isPanning (ctx (props this))"
        and pv: "pending v = [(generation this, as, cb)]"
        and ne: "cb = InitAnimationFinished \<longrightarrow> as \<noteq> []"
        by blast
      let ?w = "v\<lparr>pending := []\<rparr>"
      from fl pv have "this' = start_animation (generation this, as, cb) ?w"
        by (simp add: flush_pending_def)
      with f have nf: "\<not> isAnimating (start_animation (generation this, as, cb) ?w)"
        by simp
      from eff(1) have aw: "isAnimating ?w"
        by simp
      from start_keeps_animating [OF aw nf] ne
      obtain as' where "(generation this, as', InitAnimationFinished) \<in> set (inflight ?w)"
        by auto
      with eff(2) have "(generation this, as', InitAnimationFinished) \<in> set (inflight this)"
        by simp
      with ch Update show ?thesis by blast
    qed
  next
    case (AnimationEnd k fin)
    show ?thesis
    proof (cases "k < length (inflight this)")
      case False
      with s t f AnimationEnd show ?thesis
        by (simp add: animation_end_def)
    next
      case True
      obtain g as cb where n: "inflight this ! k = (g, as, cb)"
        by (cases "inflight this ! k")
      show ?thesis
      proof (cases cb)
        case InitAnimationFinished
        with True n AnimationEnd show ?thesis by blast
      next
        case DismissAnimationFinished
        with b [OF True] n have "isAnimating (animation_end k fin this) = isAnimating this"
          by (simp add: animation_end_def Let_def run_callback_def onDismissAnimationFinished_def
              onDismiss_method_def isAnimating_reach_targets True)
        with s t f AnimationEnd show ?thesis by simp
      qed
    qed
  qed
  have d: "count_list (calls this') PanStartCall = count_list (calls this) PanStartCall \<and>
      count_list (calls this') PanEndCall = count_list (calls this) PanEndCall + 1"
    if "isAnimating this" and "isPanning c" and "\<not> isPanning (ctx (props this))"
      and st: "step env (Update c) this = Inr this'" for c this'
  proof -
    let ?u = "this\<lparr>props := (props this)\<lparr>ctx := c\<rparr>\<rparr>"
    from st obtain v where
      v: "componentDidUpdate env (ctx (props this)) ?u = Inr v" and fl: "this' = flush_pending v"
      by (auto split: sum.splits)
    from pan_start_while_animating [OF v] that(1-3)
    have "count_list (calls v) PanStartCall = count_list (calls this) PanStartCall \<and>
        count_list (calls v) PanEndCall = count_list (calls this) PanEndCall + 1"
      by simp
    with fl show ?thesis
      by (simp add: calls_flush_pending)
  qed
  from a b c d show ?thesis
    by blast
qed


theorem isAnimating_reset_only_by_settle_witness:
  "isAnimating (animation_end 0 True (flush_pending (animateDismiss phone (Some True) None
     (onPanStart (onLayout 100 200 ((constructor (defaultProps idle))\<lparr>ref_current := True\<rparr>)))))) \<and>
   \<not> isPanning (ctx (props (animation_end 0 True (flush_pending (animateDismiss phone (Some True) None
     (onPanStart (onLayout 100 200 ((constructor (defaultProps idle))\<lparr>ref_current := True\<rparr>)))))))) \<and>
   isPanning (ctx_of True Undefined Undefined None None None None) \<and>
   \<not> isl (step phone (Update (ctx_of True Undefined Undefined None None None None))
     (animation_end 0 True (flush_pending (animateDismiss phone (Some True) None
       (onPanStart (onLayout 100 200 ((constructor (defaultProps idle))\<lparr>ref_current := True\<rparr>))))))) \<and>
   count_list (calls (projr (step phone (Update (ctx_of True Undefined Undefined None None None None))
       (animation_end 0 True (flush_pending (animateDismiss phone (Some True) None
         (onPanStart (onLayout 100 200 ((constructor (defaultProps idle))\<lparr>ref_current := True\<rparr>))))))))) PanStartCall = 1 \<and>
   count_list (calls (projr (step phone (Update (ctx_of True Undefined Undefined None None None None))
       (animation_end 0 True (flush_pending (animateDismiss phone (Some True) None
         (onPanStart (onLayout 100 200 ((constructor (defaultProps idle))\<lparr>ref_current := True\<rparr>))))))))) PanEndCall = 1 \<and>
   pending (flush_pending (animateToInitialPosition
     (onPanStart (onLayout 100 200 ((constructor (defaultProps idle))\<lparr>ref_current := True\<rparr>))))) = [] \<and>
   isAnimating (flush_pending (animateToInitialPosition
     (onPanStart (onLayout 100 200 ((constructor (defaultProps idle))\<lparr>ref_current := True\<rparr>))))) \<and>
   \<not> isl (step phone (Update (ctx_of True Undefined Undefined None None None None))
     (flush_pending (animateToInitialPosition
       (onPanStart (onLayout 100 200 ((constructor (defaultProps idle))\<lparr>ref_current := True\<rparr>)))))) \<and>
   \<not> isAnimating (projr (step phone (Update (ctx_of True Undefined Undefined None None None None))
     (flush_pending (animateToInitialPosition
       (onPanStart (onLayout 100 200 ((constructor (defaultProps idle))\<lparr>ref_current := True\<rparr>))))))) \<and>
   (\<exists>as. (generation (flush_pending (animateToInitialPosition
       (onPanStart (onLayout 100 200 ((constructor (defaultProps idle))\<lparr>ref_current := True\<rparr>))))),
         as, InitAnimationFinished) \<in>
      set (inflight (flush_pending (animateToInitialPosition
       (onPanStart (onLayout 100 200 ((constructor (defaultProps idle))\<lparr>ref_current := True\<rparr>)))))))"
proof -
  define S where "S = animation_end 0 True (flush_pending (animateDismiss phone (Some True) None
     (onPanStart (onLayout 100 200 ((constructor (defaultProps idle))\<lparr>ref_current := True\<rparr>)))))"
  define U where "U = flush_pending (animateToInitialPosition
     (onPanStart (onLayout 100 200 ((constructor (defaultProps idle))\<lparr>ref_current := True\<rparr>))))"
  define c where "c = ctx_of True Undefined Undefined None None None None"
  have a: "isAnimating S" and p: "\<not> isPanning (ctx (props S))" and pc: "isPanning c"
    and n: "calls S = [PanStartCall]"
    by (simp_all add: S_def c_def sample_defs method_defs)
  have "\<not> isl (step phone (Update c) S)"
    by (simp add: S_def c_def sample_defs method_defs)
  then have l: "\<not> isl (step phone (Update c) S)"
    and r: "step phone (Update c) S = Inr (projr (step phone (Update c) S))"
    by (cases "step phone (Update c) S"; simp)+
  from isAnimating_reset_only_by_settle [of True S phone] a p pc r
  have "count_list (calls (projr (step phone (Update c) S))) PanStartCall =
          count_list (calls S) PanStartCall \<and>
        count_list (calls (projr (step phone (Update c) S))) PanEndCall =
          count_list (calls S) PanEndCall + 1"
    by blast
  with n have k: "count_list (calls (projr (step phone (Update c) S))) PanStartCall = 1"
    "count_list (calls (projr (step phone (Update c) S))) PanEndCall = 1"
    by simp_all
  have u: "pending U = []" "isAnimating U"
    by (simp_all add: U_def sample_defs method_defs)
  have "\<not> isl (step phone (Update c) U)"
    by (simp add: U_def c_def sample_defs method_defs)
  then have lu: "\<not> isl (step phone (Update c) U)"
    and ru: "step phone (Update c) U = Inr (projr (step phone (Update c) U))"
    by (cases "step phone (Update c) U"; simp)+
  have nu: "\<not> isAnimating (projr (step phone (Update c) U))"
    by (simp add: U_def c_def sample_defs method_defs)
  from isAnimating_reset_only_by_settle [of True U phone] u ru nu
  have "(\<exists>k fin g as. Update c = AnimationEnd k fin \<and> k < length (inflight U) \<and>
         inflight U ! k = (g, as, InitAnimationFinished)) \<or>
      (\<exists>c' as. Update c = Update c' \<and> isPanning c' \<noteq> isPanning (ctx (props U)) \<and>
         (generation U, as, InitAnimationFinished) \<in> set (inflight U))"
    by blast
  then have su: "\<exists>as. (generation U, as, InitAnimationFinished) \<in> set (inflight U)"
    by auto
  from a p pc l k u lu nu su show ?thesis
    unfolding S_def U_def c_def by (simp only: simp_thms)
qed

end
